theory Spec2Isabelle
  imports Complex_Main "HOL-Library.Multiset" "HOL-Library.Log_Nat"
begin

section \<open>Data model of the fine-tuning recipes\<close>

text \<open>
  The two notebooks (the Fireworks recipe and the OpenAI recipe) turn rows of logged
  inferences into fine-tuning examples. Their Python works on parsed JSON: dictionaries
  with a \<open>type\<close> tag for content blocks, dictionaries for the messages they emit.
  A row's \<open>input\<close> and \<open>output\<close> columns are modelled after \<open>json.loads\<close>, typed
  by the schema the gateway stores them in; values the code treats as arbitrary JSON
  (the \<open>system\<close> field, the value of a \<open>text\<close> block, tool-call arguments, the
  fields of a JSON function's output) stay values of type \<open>json\<close>.
\<close>

datatype json =
    JNull
  | JBool bool
  | JNum rat
  | JStr string
  | JArr "json list"
  | JObj "(string \<times> json) list"

text \<open>The Python exceptions the modelled code can raise.\<close>

datatype error =
    NameError
  | TypeError
  | KeyError
  | AssertionError
  | ValueError
  | TemplateError
  | ZeroDivisionError

text \<open>
  A content block of an input message. \<open>Other t\<close> is a block whose \<open>type\<close> tag
  \<open>t\<close> is none of the five the notebooks know.
\<close>

datatype content_block =
    Text json
  | RawText string
  | Thought string
  | ToolCall string string json
  | ToolResult string string
  | Other string

text \<open>
  A content block of a chat function's output: there a \<open>text\<close> block carries its
  string under the key \<open>text\<close>. \<open>OutOther t\<close> is any other tag (a tool result,
  an image, ...).
\<close>

datatype output_block =
    OutText string
  | OutThought string
  | OutToolCall string string json
  | OutOther string

text \<open>
  The parsed output column: a dictionary for a JSON function (with the keys \<open>raw\<close>
  and \<open>parsed\<close>), a list of content blocks for a chat function.
\<close>

datatype fn_output =
    JsonOutput "(string \<times> json) list"
  | ChatOutput "output_block list"

record message =
  msg_role :: string
  msg_content :: "content_block list"

record function_input =
  system :: "json option"
  messages :: "message list"

text \<open>The dictionaries the notebooks emit.\<close>

datatype content_part = TextPart string

record tool_call =
  call_arguments :: string
  call_name :: string
  call_id :: string

datatype content =
    Str string
  | Parts "content_part list"
  | Raw json

record rendered_message =
  role :: string
  content :: "content option"
  tool_calls :: "tool_call list option"
  tool_call_id :: "string option"

text \<open>
  A notebook-level name is bound only if the cell that assigns it ran the assignment:
  \<open>system_template_path\<close> is assigned inside \<open>if "system_template" in variant\<close>
  and nowhere else. Reading an unbound name raises \<open>NameError\<close>; a bound
  \<open>pathlib.Path\<close> is always truthy.
\<close>

datatype binding = Unbound | Bound string

fun read_name :: "binding \<Rightarrow> error + string" where
  "read_name Unbound = Inl NameError"
| "read_name (Bound p) = Inr p"

definition path_truthy :: "string \<Rightarrow> bool" where
  "path_truthy p = True"

text \<open>
  The notebook globals the functions read. \<open>render_template\<close> is minijinja's
  \<open>env.render_template(name, **variables)\<close> and \<open>json_dumps\<close> is
  \<open>json.dumps\<close>; both are libraries outside the repository and are parameters of the
  model. \<open>DROP_INVALID_MESSAGES\<close> exists in the Fireworks notebook only.
\<close>

record globals =
  render_template :: "string \<Rightarrow> (string \<times> json) list \<Rightarrow> error + string"
  json_dumps :: "json \<Rightarrow> string"
  DROP_INVALID_MESSAGES :: bool
  function_type :: string
  system_template_path :: binding

section \<open>Python helpers\<close>

text \<open>\<open>sep.join(xs)\<close>\<close>

fun join :: "string \<Rightarrow> string list \<Rightarrow> string" where
  "join sep [] = []"
| "join sep [x] = x"
| "join sep (x # y # ys) = x @ sep @ join sep (y # ys)"

definition newline :: string where
  "newline = [CHR 0x0A]"

text \<open>\<open>len(v)\<close> on a JSON value: defined on strings, lists and dictionaries.\<close>

fun py_len :: "json \<Rightarrow> error + nat" where
  "py_len (JStr s) = Inr (length s)"
| "py_len (JArr xs) = Inr (length xs)"
| "py_len (JObj kvs) = Inr (length (remdups (map fst kvs)))"
| "py_len v = Inl TypeError"

text \<open>\<open>f(**v)\<close>: the argument must be a mapping.\<close>

fun kwargs :: "json \<Rightarrow> error + (string \<times> json) list" where
  "kwargs (JObj kvs) = Inr kvs"
| "kwargs v = Inl TypeError"

text \<open>\<open>d[k]\<close> on a dictionary.\<close>

definition getitem :: "(string \<times> json) list \<Rightarrow> string \<Rightarrow> error + json" where
  "getitem d k = (case map_of d k of None \<Rightarrow> Inl KeyError | Some v \<Rightarrow> Inr v)"

definition think :: "string \<Rightarrow> string" where
  "think t = ''<think>'' @ t @ ''</think>''"

definition part_text :: "content_part \<Rightarrow> string" where
  "part_text c = (case c of TextPart s \<Rightarrow> s)"

definition make_tool_call :: "globals \<Rightarrow> string \<Rightarrow> string \<Rightarrow> json \<Rightarrow> tool_call" where
  "make_tool_call g i n a =
     \<lparr>call_arguments = json_dumps g a, call_name = n, call_id = i\<rparr>"

definition tool_message :: "string \<Rightarrow> string \<Rightarrow> rendered_message" where
  "tool_message i r =
     \<lparr>role = ''tool'', content = Some (Str r), tool_calls = None, tool_call_id = Some i\<rparr>"

section \<open>The Fireworks notebook\<close>

type_synonym acc = "content_part list \<times> tool_call list \<times> rendered_message list"

text \<open>
  The value of a \<open>text\<close> block: a string passes through, anything else is splatted
  into the template of the message's role.
\<close>

fun render_text :: "globals \<Rightarrow> string \<Rightarrow> json \<Rightarrow> error + string" where
  "render_text g r (JStr s) = Inr s"
| "render_text g r v =
     (case kwargs v of Inl e \<Rightarrow> Inl e | Inr kvs \<Rightarrow> render_template g r kvs)"

text \<open>
  One iteration of the loop over \<open>message["content"]\<close> in the Fireworks
  \<open>render_message\<close>. The state is the three lists the loop appends to;
  \<open>Inr None\<close> is the early \<open>return None\<close>.
\<close>

fun render_block_fireworks ::
  "globals \<Rightarrow> string \<Rightarrow> content_block \<Rightarrow> acc \<Rightarrow> error + acc option" where
  "render_block_fireworks g r (Text v) (c, tc, rm) =
     (case render_text g r v of
        Inl e \<Rightarrow> Inl e
      | Inr s \<Rightarrow> Inr (Some (c @ [TextPart s], tc, rm)))"
| "render_block_fireworks g r (RawText s) (c, tc, rm) =
     Inr (Some (c @ [TextPart s], tc, rm))"
| "render_block_fireworks g r (Thought t) (c, tc, rm) =
     (if DROP_INVALID_MESSAGES g then Inr None
      else Inr (Some (c @ [TextPart (think t)], tc, rm)))"
| "render_block_fireworks g r (ToolCall i n a) (c, tc, rm) =
     (if DROP_INVALID_MESSAGES g then Inr None
      else if r = ''assistant'' \<and> \<not> DROP_INVALID_MESSAGES g
        then Inr (Some (c, tc @ [make_tool_call g i n a], rm))
      else Inr None)"
| "render_block_fireworks g r (ToolResult i res) (c, tc, rm) =
     (if DROP_INVALID_MESSAGES g then Inr None
      else if r = ''user'' \<and> \<not> DROP_INVALID_MESSAGES g
        then Inr (Some (c, tc, rm @ [tool_message i res]))
      else Inr None)"
| "render_block_fireworks g r (Other t) (c, tc, rm) = Inr None"

fun render_blocks_fireworks ::
  "globals \<Rightarrow> string \<Rightarrow> content_block list \<Rightarrow> acc \<Rightarrow> error + acc option" where
  "render_blocks_fireworks g r [] a = Inr (Some a)"
| "render_blocks_fireworks g r (b # bs) a =
     (case render_block_fireworks g r b a of
        Inl e \<Rightarrow> Inl e
      | Inr None \<Rightarrow> Inr None
      | Inr (Some a') \<Rightarrow> render_blocks_fireworks g r bs a')"

text \<open>The code after the loop: one message of the original role, if it has anything.\<close>

definition finish_fireworks :: "string \<Rightarrow> acc \<Rightarrow> rendered_message list" where
  "finish_fireworks r a =
     (case a of (c, tc, rm) \<Rightarrow>
        if c \<noteq> [] \<or> tc \<noteq> [] then
          rm @ [\<lparr>role = r,
                 content = (if c \<noteq> [] then Some (Str (join newline (map part_text c))) else None),
                 tool_calls = (if tc \<noteq> [] then Some tc else None),
                 tool_call_id = None\<rparr>]
        else rm)"

definition render_message_fireworks ::
  "globals \<Rightarrow> message \<Rightarrow> error + rendered_message list option" where
  "render_message_fireworks g m =
     (let r = msg_role m in
      if r \<notin> set [''user'', ''assistant''] then Inl AssertionError
      else case render_blocks_fireworks g r (msg_content m) ([], [], []) of
             Inl e \<Rightarrow> Inl e
           | Inr None \<Rightarrow> Inr None
           | Inr (Some a) \<Rightarrow> Inr (Some (finish_fireworks r a)))"

text \<open>
  One iteration of the loop over the output blocks in the Fireworks \<open>render_output\<close>;
  the state is the two lists \<open>content\<close> and \<open>tool_calls\<close>.
\<close>

fun render_output_block_fireworks ::
  "globals \<Rightarrow> output_block \<Rightarrow> content_part list \<times> tool_call list \<Rightarrow>
     (content_part list \<times> tool_call list) option" where
  "render_output_block_fireworks g (OutText s) (c, tc) = Some (c @ [TextPart s], tc)"
| "render_output_block_fireworks g (OutThought t) (c, tc) =
     (if DROP_INVALID_MESSAGES g then None else Some (c @ [TextPart (think t)], tc))"
| "render_output_block_fireworks g (OutToolCall i n a) (c, tc) =
     (if DROP_INVALID_MESSAGES g then None
      else if \<not> DROP_INVALID_MESSAGES g then Some (c, tc @ [make_tool_call g i n a])
      else None)"
| "render_output_block_fireworks g (OutOther t) (c, tc) = None"

fun render_output_blocks_fireworks ::
  "globals \<Rightarrow> output_block list \<Rightarrow> content_part list \<times> tool_call list \<Rightarrow>
     (content_part list \<times> tool_call list) option" where
  "render_output_blocks_fireworks g [] a = Some a"
| "render_output_blocks_fireworks g (b # bs) a =
     (case render_output_block_fireworks g b a of
        None \<Rightarrow> None
      | Some a' \<Rightarrow> render_output_blocks_fireworks g bs a')"

definition output_message_fireworks ::
  "content_part list \<times> tool_call list \<Rightarrow> rendered_message" where
  "output_message_fireworks a =
     (case a of (c, tc) \<Rightarrow>
        \<lparr>role = ''assistant'',
         content = (if c \<noteq> [] then Some (Str (join newline (map part_text c))) else None),
         tool_calls = (if tc \<noteq> [] then Some tc else None),
         tool_call_id = None\<rparr>)"

text \<open>
  \<open>render_output\<close>. For a JSON function the output dictionary is indexed by
  \<open>"raw"\<close>; indexing a list by a string raises \<open>TypeError\<close>. For a chat function
  the output is iterated: iterating a dictionary yields its keys, and indexing such a
  key by \<open>"type"\<close> raises \<open>TypeError\<close>.
\<close>

definition render_output_fireworks ::
  "globals \<Rightarrow> fn_output \<Rightarrow> error + rendered_message option" where
  "render_output_fireworks g out =
     (if function_type g = ''json'' then
        (case out of
           JsonOutput d \<Rightarrow>
             (case getitem d ''raw'' of
                Inl e \<Rightarrow> Inl e
              | Inr v \<Rightarrow> Inr (Some \<lparr>role = ''assistant'', content = Some (Raw v),
                                     tool_calls = None, tool_call_id = None\<rparr>))
         | ChatOutput bs \<Rightarrow> Inl TypeError)
      else if function_type g = ''chat'' then
        (case out of
           ChatOutput bs \<Rightarrow>
             (case render_output_blocks_fireworks g bs ([], []) of
                None \<Rightarrow> Inr None
              | Some a \<Rightarrow> Inr (Some (output_message_fireworks a)))
         | JsonOutput d \<Rightarrow>
             (if d = [] then Inr (Some (output_message_fireworks ([], [])))
              else Inl TypeError))
      else Inl ValueError)"

text \<open>
  The first step of \<open>sample_to_conversational_messages\<close> (and, word for word, of
  \<open>sample_to_openai_messages\<close>): the system message.
  \<open>function_input.get("system", {})\<close> defaults to the empty dictionary; the test
  \<open>len(system) > 0 or system_template_path\<close> reads the name only when the length
  is zero, the inner \<open>if system_template_path\<close> reads it always.
\<close>

definition system_message ::
  "globals \<Rightarrow> function_input \<Rightarrow> error + rendered_message list" where
  "system_message g fi =
     (let sys = (case system fi of None \<Rightarrow> JObj [] | Some v \<Rightarrow> v) in
      case py_len sys of
        Inl e \<Rightarrow> Inl e
      | Inr n \<Rightarrow>
         (case (if n > 0 then Inr True
                else map_sum id path_truthy (read_name (system_template_path g))) of
            Inl e \<Rightarrow> Inl e
          | Inr False \<Rightarrow> Inr []
          | Inr True \<Rightarrow>
             (case read_name (system_template_path g) of
                Inl e \<Rightarrow> Inl e
              | Inr p \<Rightarrow>
                 if path_truthy p then
                   (case kwargs sys of
                      Inl e \<Rightarrow> Inl e
                    | Inr kvs \<Rightarrow>
                       (case render_template g ''system'' kvs of
                          Inl e \<Rightarrow> Inl e
                        | Inr s \<Rightarrow> Inr [\<lparr>role = ''system'', content = Some (Str s),
                                          tool_calls = None, tool_call_id = None\<rparr>]))
                 else Inr [\<lparr>role = ''system'', content = Some (Raw sys),
                            tool_calls = None, tool_call_id = None\<rparr>])))"

text \<open>
  A row of the query result. The Fireworks notebook reads the demonstration in
  \<open>value\<close> as the output; the OpenAI notebook reads \<open>output\<close>.
\<close>

record 'v sample =
  row_variant_name :: string
  row_input :: function_input
  row_output :: fn_output
  row_value :: 'v
  row_episode_id :: string

text \<open>The loop over \<open>function_input["messages"]\<close>, extending \<open>rendered_messages\<close>.\<close>

fun render_inputs_fireworks ::
  "globals \<Rightarrow> message list \<Rightarrow> rendered_message list \<Rightarrow> error + rendered_message list option" where
  "render_inputs_fireworks g [] rms = Inr (Some rms)"
| "render_inputs_fireworks g (m # ms) rms =
     (case render_message_fireworks g m of
        Inl e \<Rightarrow> Inl e
      | Inr None \<Rightarrow> Inr None
      | Inr (Some r) \<Rightarrow> render_inputs_fireworks g ms (rms @ r))"

text \<open>The result is the list under the key \<open>messages\<close> of the returned dictionary.\<close>

definition sample_to_conversational_messages ::
  "globals \<Rightarrow> fn_output sample \<Rightarrow> error + rendered_message list option" where
  "sample_to_conversational_messages g s =
     (case system_message g (row_input s) of
        Inl e \<Rightarrow> Inl e
      | Inr sys \<Rightarrow>
         (case render_inputs_fireworks g (messages (row_input s)) sys of
            Inl e \<Rightarrow> Inl e
          | Inr None \<Rightarrow> Inr None
          | Inr (Some rms) \<Rightarrow>
             (case render_output_fireworks g (row_value s) of
                Inl e \<Rightarrow> Inl e
              | Inr None \<Rightarrow> Inr None
              | Inr (Some out) \<Rightarrow> Inr (Some (rms @ [out])))))"

section \<open>The OpenAI notebook\<close>

text \<open>One iteration of the loop in the OpenAI \<open>render_message\<close>.\<close>

fun render_block_openai ::
  "globals \<Rightarrow> string \<Rightarrow> content_block \<Rightarrow> acc \<Rightarrow> error + acc option" where
  "render_block_openai g r (Text v) (c, tc, rm) =
     (case render_text g r v of
        Inl e \<Rightarrow> Inl e
      | Inr s \<Rightarrow> Inr (Some (c @ [TextPart s], tc, rm)))"
| "render_block_openai g r (RawText s) (c, tc, rm) =
     Inr (Some (c @ [TextPart s], tc, rm))"
| "render_block_openai g r (Thought t) (c, tc, rm) =
     Inr (Some (c @ [TextPart (think t)], tc, rm))"
| "render_block_openai g r (ToolCall i n a) (c, tc, rm) =
     (if r = ''assistant'' then Inr (Some (c, tc @ [make_tool_call g i n a], rm))
      else Inr None)"
| "render_block_openai g r (ToolResult i res) (c, tc, rm) =
     (if r = ''user'' then Inr (Some (c, tc, rm @ [tool_message i res]))
      else Inr None)"
| "render_block_openai g r (Other t) (c, tc, rm) = Inr None"

fun render_blocks_openai ::
  "globals \<Rightarrow> string \<Rightarrow> content_block list \<Rightarrow> acc \<Rightarrow> error + acc option" where
  "render_blocks_openai g r [] a = Inr (Some a)"
| "render_blocks_openai g r (b # bs) a =
     (case render_block_openai g r b a of
        Inl e \<Rightarrow> Inl e
      | Inr None \<Rightarrow> Inr None
      | Inr (Some a') \<Rightarrow> render_blocks_openai g r bs a')"

definition finish_openai :: "string \<Rightarrow> acc \<Rightarrow> rendered_message list" where
  "finish_openai r a =
     (case a of (c, tc, rm) \<Rightarrow>
        if c \<noteq> [] \<or> tc \<noteq> [] then
          rm @ [\<lparr>role = r,
                 content = (if c \<noteq> [] then Some (Parts c) else None),
                 tool_calls = (if tc \<noteq> [] then Some tc else None),
                 tool_call_id = None\<rparr>]
        else rm)"

definition render_message_openai ::
  "globals \<Rightarrow> message \<Rightarrow> error + rendered_message list option" where
  "render_message_openai g m =
     (let r = msg_role m in
      if r \<notin> set [''user'', ''assistant''] then Inl AssertionError
      else case render_blocks_openai g r (msg_content m) ([], [], []) of
             Inl e \<Rightarrow> Inl e
           | Inr None \<Rightarrow> Inr None
           | Inr (Some a) \<Rightarrow> Inr (Some (finish_openai r a)))"

fun render_output_block_openai ::
  "globals \<Rightarrow> output_block \<Rightarrow> content_part list \<times> tool_call list \<Rightarrow>
     (content_part list \<times> tool_call list) option" where
  "render_output_block_openai g (OutText s) (c, tc) = Some (c @ [TextPart s], tc)"
| "render_output_block_openai g (OutThought t) (c, tc) = Some (c @ [TextPart (think t)], tc)"
| "render_output_block_openai g (OutToolCall i n a) (c, tc) =
     Some (c, tc @ [make_tool_call g i n a])"
| "render_output_block_openai g (OutOther t) (c, tc) = None"

fun render_output_blocks_openai ::
  "globals \<Rightarrow> output_block list \<Rightarrow> content_part list \<times> tool_call list \<Rightarrow>
     (content_part list \<times> tool_call list) option" where
  "render_output_blocks_openai g [] a = Some a"
| "render_output_blocks_openai g (b # bs) a =
     (case render_output_block_openai g b a of
        None \<Rightarrow> None
      | Some a' \<Rightarrow> render_output_blocks_openai g bs a')"

definition output_message_openai ::
  "content_part list \<times> tool_call list \<Rightarrow> rendered_message" where
  "output_message_openai a =
     (case a of (c, tc) \<Rightarrow>
        \<lparr>role = ''assistant'',
         content = (if c \<noteq> [] then Some (Parts c) else None),
         tool_calls = (if tc \<noteq> [] then Some tc else None),
         tool_call_id = None\<rparr>)"

definition render_output_openai ::
  "globals \<Rightarrow> fn_output \<Rightarrow> error + rendered_message option" where
  "render_output_openai g out =
     (if function_type g = ''json'' then
        (case out of
           JsonOutput d \<Rightarrow>
             (case getitem d ''raw'' of
                Inl e \<Rightarrow> Inl e
              | Inr v \<Rightarrow> Inr (Some \<lparr>role = ''assistant'', content = Some (Raw v),
                                     tool_calls = None, tool_call_id = None\<rparr>))
         | ChatOutput bs \<Rightarrow> Inl TypeError)
      else if function_type g = ''chat'' then
        (case out of
           ChatOutput bs \<Rightarrow>
             (case render_output_blocks_openai g bs ([], []) of
                None \<Rightarrow> Inr None
              | Some a \<Rightarrow> Inr (Some (output_message_openai a)))
         | JsonOutput d \<Rightarrow>
             (if d = [] then Inr (Some (output_message_openai ([], [])))
              else Inl TypeError))
      else Inl ValueError)"

text \<open>
  The loop over the input messages in \<open>sample_to_openai_messages\<close> calls
  \<open>render_message\<close> once for the test and a second time inside
  \<open>rendered_messages.extend(...)\<close>; extending by \<open>None\<close> raises \<open>TypeError\<close>.
\<close>

fun render_inputs_openai ::
  "globals \<Rightarrow> message list \<Rightarrow> rendered_message list \<Rightarrow> error + rendered_message list option" where
  "render_inputs_openai g [] rms = Inr (Some rms)"
| "render_inputs_openai g (m # ms) rms =
     (case render_message_openai g m of
        Inl e \<Rightarrow> Inl e
      | Inr None \<Rightarrow> Inr None
      | Inr (Some r) \<Rightarrow>
         (case render_message_openai g m of
            Inl e \<Rightarrow> Inl e
          | Inr None \<Rightarrow> Inl TypeError
          | Inr (Some r') \<Rightarrow> render_inputs_openai g ms (rms @ r')))"

definition sample_to_openai_messages ::
  "globals \<Rightarrow> 'v sample \<Rightarrow> error + rendered_message list option" where
  "sample_to_openai_messages g s =
     (case system_message g (row_input s) of
        Inl e \<Rightarrow> Inl e
      | Inr sys \<Rightarrow>
         (case render_inputs_openai g (messages (row_input s)) sys of
            Inl e \<Rightarrow> Inl e
          | Inr None \<Rightarrow> Inr None
          | Inr (Some rms) \<Rightarrow>
             (case render_output_openai g (row_output s) of
                Inl e \<Rightarrow> Inl e
              | Inr None \<Rightarrow> Inr None
              | Inr (Some out) \<Rightarrow> Inr (Some (rms @ [out])))))"

section \<open>The train/validation split of the OpenAI notebook\<close>

text \<open>
  After the rendering cell the data frame has the column \<open>openai_messages\<close>, and
  the rows whose example was dropped are gone.
\<close>

record 'v example_row = "'v sample" +
  openai_messages :: "rendered_message list"

text \<open>\<open>Series.unique()\<close>: the distinct values in order of first appearance.\<close>

fun unique_from :: "'a list \<Rightarrow> 'a list \<Rightarrow> 'a list" where
  "unique_from seen [] = []"
| "unique_from seen (x # xs) =
     (if x \<in> set seen then unique_from seen xs else x # unique_from (x # seen) xs)"

definition unique :: "'a list \<Rightarrow> 'a list" where
  "unique xs = unique_from [] xs"

text \<open>
  NumPy's global generator is a library outside the repository: \<open>np.random.seed\<close>
  replaces the generator's state, \<open>np.random.shuffle\<close> reorders the array in place and
  advances the state. Both are parameters of the model; \<open>'g\<close> is the type of generator
  states.
\<close>

record 'g np_random =
  random_seed :: "nat \<Rightarrow> 'g"
  random_shuffle :: "'g \<Rightarrow> string list \<Rightarrow> string list \<times> 'g"

text \<open>
  Python floats are IEEE 754 doubles, and every operation rounds its exact result to
  the nearest double, a tie going to the double with the even significand.
  \<open>double x\<close> is that rounding of a rational \<open>x\<close>: with
  \<open>2 ^ e \<le> |x| < 2 ^ (e + 1)\<close> the doubles around \<open>x\<close> are the multiples of
  \<open>2 ^ (e - 52)\<close>. The exponent range is left unbounded (no overflow, no subnormal
  numbers): the values of this cell, lengths and numbers between \<open>2 ^ -53\<close> and a
  length, are far from both ends.
\<close>

definition pow2 :: "int \<Rightarrow> rat" where
  "pow2 e = (if 0 \<le> e then 2 ^ nat e else 1 / 2 ^ nat (- e))"

text \<open>The \<open>e\<close> with \<open>2 ^ e \<le> x < 2 ^ (e + 1)\<close>, for positive \<open>x\<close>.\<close>

definition exponent :: "rat \<Rightarrow> int" where
  "exponent x = (if 1 \<le> x then bitlen \<lfloor>x\<rfloor> - 1 else - bitlen (\<lceil>1 / x\<rceil> - 1))"

definition round_half_even :: "rat \<Rightarrow> int" where
  "round_half_even x =
     (let f = \<lfloor>x\<rfloor>; d = x - of_int f
      in if d < 1 / 2 then f else if 1 / 2 < d then f + 1 else if even f then f else f + 1)"

definition double :: "rat \<Rightarrow> rat" where
  "double x =
     (if x = 0 then 0
      else let u = pow2 (exponent \<bar>x\<bar> - 52)
           in of_int (round_half_even (x / u)) * u)"

text \<open>\<open>int(x)\<close> truncates towards zero.\<close>

definition py_int :: "rat \<Rightarrow> int" where
  "py_int x = (if 0 \<le> x then \<lfloor>x\<rfloor> else \<lceil>x\<rceil>)"

text \<open>
  \<open>int(len(unique_episode_ids) * (1 - VAL_FRACTION))\<close>, where \<open>val_fraction\<close> is
  the double that \<open>VAL_FRACTION\<close> holds: the length is converted to a double, and the
  difference and the product are each rounded.
\<close>

definition split_index :: "nat \<Rightarrow> rat \<Rightarrow> int" where
  "split_index n val_fraction =
     py_int (double (double (of_nat n) * double (1 - val_fraction)))"

text \<open>\<open>xs[:k]\<close> and \<open>xs[k:]\<close>: a negative bound counts from the end.\<close>

definition slice_to :: "int \<Rightarrow> 'a list \<Rightarrow> 'a list" where
  "slice_to k xs = (if k < 0 then take (nat (int (length xs) + k)) xs else take (nat k) xs)"

definition slice_from :: "int \<Rightarrow> 'a list \<Rightarrow> 'a list" where
  "slice_from k xs = (if k < 0 then drop (nat (int (length xs) + k)) xs else drop (nat k) xs)"

text \<open>\<open>df[df["episode_id"].isin(ids)]\<close>\<close>

definition isin :: "('v, 'z) example_row_scheme list \<Rightarrow> string list \<Rightarrow> ('v, 'z) example_row_scheme list" where
  "isin df ids = filter (\<lambda>r. row_episode_id r \<in> set ids) df"

record ('v, 'z) episode_split =
  train_episode_ids :: "string list"
  val_episode_ids :: "string list"
  train_df :: "('v, 'z) example_row_scheme list"
  val_df :: "('v, 'z) example_row_scheme list"

text \<open>The shuffled distinct episode ids, and the generator state after the shuffle.\<close>

definition shuffled_episode_ids ::
  "'g np_random \<Rightarrow> ('v, 'z) example_row_scheme list \<Rightarrow> string list \<times> 'g" where
  "shuffled_episode_ids rng df =
     (let unique_episode_ids = unique (map row_episode_id df);
          g1 = random_seed rng 42
      in random_shuffle rng g1 unique_episode_ids)"

text \<open>
  The cell up to its print statements, run with the generator in state \<open>g0\<close>: it
  returns the four values it binds and the state it leaves the generator in.
\<close>

definition split_cell ::
  "'g np_random \<Rightarrow> rat \<Rightarrow> 'g \<Rightarrow> ('v, 'z) example_row_scheme list \<Rightarrow> ('v, 'z) episode_split \<times> 'g" where
  "split_cell rng val_fraction g0 df =
     (case shuffled_episode_ids rng df of (ids, g2) \<Rightarrow>
        let k = split_index (length ids) val_fraction;
            tr = slice_to k ids;
            va = slice_from k ids
        in (\<lparr>train_episode_ids = tr, val_episode_ids = va,
             train_df = isin df tr, val_df = isin df va\<rparr>, g2))"

text \<open>
  The cell's last statement prints \<open>len(val_df) / len(df)\<close>, a true division of two
  lengths, which raises on an empty data frame.
\<close>

definition actual_validation_fraction :: "nat \<Rightarrow> nat \<Rightarrow> error + rat" where
  "actual_validation_fraction len_val_df len_df =
     (if len_df = 0 then Inl ZeroDivisionError
      else Inr (double (of_nat len_val_df / of_nat len_df)))"

section \<open>The feedback query of the OpenAI notebook\<close>

text \<open>
  The two tables the query reads, with the columns it names. A metric value is a float,
  or a boolean that ClickHouse compares with the threshold as 0 or 1; both are modelled
  as rationals. Timestamps are seconds.
\<close>

record inference =
  inf_id :: string
  inf_function_name :: string
  inf_variant_name :: string
  inf_input :: string
  inf_output :: string
  inf_episode_id :: string

record feedback =
  fb_target_id :: string
  fb_metric_name :: string
  fb_value :: rat
  fb_timestamp :: nat

record query_row =
  q_variant_name :: string
  q_input :: string
  q_output :: string
  q_value :: rat
  q_episode_id :: string

text \<open>The cells that derive the query's pieces from the metric's configuration.\<close>

definition inference_join_key :: "string \<Rightarrow> error + string" where
  "inference_join_key level =
     (if level = ''episode'' then Inr ''episode_id''
      else if level = ''inference'' then Inr ''id''
      else Inl ValueError)"

definition comparison_operator :: "string \<Rightarrow> string" where
  "comparison_operator optimize = (if optimize = ''max'' then ''>='' else ''<='')"

definition threshold :: "string \<Rightarrow> rat \<Rightarrow> rat" where
  "threshold metric_type float_metric_threshold =
     (if metric_type = ''float'' then float_metric_threshold else 1 / 2)"

definition compare_value :: "string \<Rightarrow> rat \<Rightarrow> rat \<Rightarrow> bool" where
  "compare_value op v t = (if op = ''>='' then v \<ge> t else v \<le> t)"

definition join_column :: "string \<Rightarrow> inference \<Rightarrow> string" where
  "join_column k i = (if k = ''episode_id'' then inf_episode_id i else inf_id i)"

text \<open>
  The subquery. SQL evaluates its \<open>WHERE\<close> clause first and the window function
  \<open>ROW_NUMBER() OVER (PARTITION BY target_id ORDER BY timestamp DESC)\<close> over the rows
  that remain. Rows of one target with equal timestamps are numbered in table order
  (SQL leaves their order open).
\<close>

definition row_number :: "feedback list \<Rightarrow> nat \<Rightarrow> nat" where
  "row_number rows k =
     Suc (length (filter
       (\<lambda>j. fb_target_id (rows ! j) = fb_target_id (rows ! k) \<and>
            (fb_timestamp (rows ! j) > fb_timestamp (rows ! k) \<or>
             (fb_timestamp (rows ! j) = fb_timestamp (rows ! k) \<and> j < k)))
       [0..<length rows]))"

definition feedback_subquery ::
  "feedback list \<Rightarrow> string \<Rightarrow> string \<Rightarrow> rat \<Rightarrow> (string \<times> rat \<times> nat) list" where
  "feedback_subquery tbl metric_name op thr =
     (let rows = filter (\<lambda>f. fb_metric_name f = metric_name \<and> compare_value op (fb_value f) thr) tbl
      in map (\<lambda>k. (fb_target_id (rows ! k), fb_value (rows ! k), row_number rows k))
             [0..<length rows])"

text \<open>
  The query: the join on the key and \<open>rn = 1\<close>, the filter on the function name, the
  limit. Rows come out in table order (the store's order is implementation-defined).
\<close>

definition query_df ::
  "inference list \<Rightarrow> feedback list \<Rightarrow> string \<Rightarrow> string \<Rightarrow> string \<Rightarrow> string \<Rightarrow> rat \<Rightarrow> nat \<Rightarrow>
     query_row list" where
  "query_df inference_table feedback_table join_key function_name metric_name op thr max_samples =
     take max_samples
       (concat (map (\<lambda>i.
          map (\<lambda>(t, v, rn).
                 \<lparr>q_variant_name = inf_variant_name i, q_input = inf_input i,
                  q_output = inf_output i, q_value = v, q_episode_id = inf_episode_id i\<rparr>)
              (filter (\<lambda>(t, v, rn). join_column join_key i = t \<and> rn = 1)
                      (feedback_subquery feedback_table metric_name op thr)))
          (filter (\<lambda>i. inf_function_name i = function_name) inference_table)))"

section \<open>Functions used to state the properties\<close>

text \<open>
  What a message's blocks contribute when nothing is dropped: the texts of its
  text-bearing blocks, the tool messages of its tool results and the tool calls, each in
  source order.
\<close>

fun block_texts :: "globals \<Rightarrow> string \<Rightarrow> content_block \<Rightarrow> string list" where
  "block_texts g r (Text v) = (case render_text g r v of Inl e \<Rightarrow> [] | Inr s \<Rightarrow> [s])"
| "block_texts g r (RawText s) = [s]"
| "block_texts g r (Thought t) = [think t]"
| "block_texts g r b = []"

definition rendered_texts :: "globals \<Rightarrow> string \<Rightarrow> content_block list \<Rightarrow> string list" where
  "rendered_texts g r bs = concat (map (block_texts g r) bs)"

fun block_tool_messages :: "content_block \<Rightarrow> rendered_message list" where
  "block_tool_messages (ToolResult i res) = [tool_message i res]"
| "block_tool_messages b = []"

definition tool_messages :: "content_block list \<Rightarrow> rendered_message list" where
  "tool_messages bs = concat (map block_tool_messages bs)"

fun block_tool_calls :: "globals \<Rightarrow> content_block \<Rightarrow> tool_call list" where
  "block_tool_calls g (ToolCall i n a) = [make_tool_call g i n a]"
| "block_tool_calls g b = []"

definition tool_calls_of :: "globals \<Rightarrow> content_block list \<Rightarrow> tool_call list" where
  "tool_calls_of g bs = concat (map (block_tool_calls g) bs)"




text \<open>
  The loop over the input messages, for any rendering function: both notebooks' loops
  are instances of it.
\<close>

fun extend_all :: "('m \<Rightarrow> error + 'r list option) \<Rightarrow> 'm list \<Rightarrow> 'r list \<Rightarrow> error + 'r list option" where
  "extend_all f [] rms = Inr (Some rms)"
| "extend_all f (m # ms) rms =
     (case f m of
        Inl e \<Rightarrow> Inl e
      | Inr None \<Rightarrow> Inr None
      | Inr (Some r) \<Rightarrow> extend_all f ms (rms @ r))"

text \<open>
  All-or-nothing assembly, over the outcome \<open>sys\<close> of the system step, the
  outcomes \<open>ins\<close> of rendering each input message, the outcome \<open>out\<close> of
  rendering the output, and the row's result \<open>res\<close>. An example is returned only
  if every part was rendered, and then it is the system message, the rendered inputs and
  the rendered output, in that order; a drop among the inputs or of the output means no
  example; where the first input that is not rendered is a drop, or all inputs are
  rendered and the output is a drop, the row returns \<open>None\<close>; and when every part
  is rendered the row returns the full sequence.
\<close>

definition all_or_nothing ::
  "error + rendered_message list \<Rightarrow> (error + rendered_message list option) list \<Rightarrow>
   error + rendered_message option \<Rightarrow> error + rendered_message list option \<Rightarrow> bool" where
  "all_or_nothing sys ins out res \<longleftrightarrow>
     (\<forall>ex. res = Inr (Some ex) \<longrightarrow>
        (\<exists>s rs m. sys = Inr s \<and> ins = map (\<lambda>r. Inr (Some r)) rs \<and> out = Inr (Some m)
           \<and> ex = s @ concat rs @ [m]))
   \<and> (\<forall>ex. Inr None \<in> set ins \<or> out = Inr None \<longrightarrow> res \<noteq> Inr (Some ex))
   \<and> (\<forall>s rs rest. sys = Inr s \<longrightarrow> ins = map (\<lambda>r. Inr (Some r)) rs @ Inr None # rest \<longrightarrow>
        res = Inr None)
   \<and> (\<forall>s rs. sys = Inr s \<longrightarrow> ins = map (\<lambda>r. Inr (Some r)) rs \<longrightarrow> out = Inr None \<longrightarrow>
        res = Inr None)
   \<and> (\<forall>s rs m. sys = Inr s \<longrightarrow> ins = map (\<lambda>r. Inr (Some r)) rs \<longrightarrow> out = Inr (Some m) \<longrightarrow>
        res = Inr (Some (s @ concat rs @ [m])))"

text \<open>
  Concrete notebook globals for evaluating the definitions: the parameter cell of the
  Fireworks notebook as committed (a JSON function, invalid messages dropped, a variant
  with a system template), with stand-ins for the two libraries.
\<close>

definition stub_render :: "string \<Rightarrow> (string \<times> json) list \<Rightarrow> error + string" where
  "stub_render n kvs = Inr (n @ '':'' @ concat (map fst kvs))"

definition notebook_defaults :: globals where
  "notebook_defaults =
     \<lparr>render_template = stub_render, json_dumps = (\<lambda>v. ''{}''),
      DROP_INVALID_MESSAGES = True, function_type = ''json'',
      system_template_path = Bound ''system_template.minijinja''\<rparr>"

text \<open>
  Two rows: one that assembles, and one whose second input message holds an unknown
  block.
\<close>

definition ok_row :: "fn_output sample" where
  "ok_row =
     \<lparr>row_variant_name = ''gpt_4o_mini'',
      row_input = \<lparr>system = Some (JObj [(''topic'', JStr ''names'')]),
         messages = [\<lparr>msg_role = ''user'', msg_content = [Text (JStr ''Ada met Alan.'')]\<rparr>]\<rparr>,
      row_output = JsonOutput [(''raw'', JStr ''{person: []}'')],
      row_value = JsonOutput [(''raw'', JStr ''{person: [Ada, Alan]}'')],
      row_episode_id = ''e1''\<rparr>"

definition dropped_row :: "fn_output sample" where
  "dropped_row =
     \<lparr>row_variant_name = ''gpt_4o_mini'',
      row_input = \<lparr>system = Some (JObj [(''topic'', JStr ''names'')]),
         messages = [\<lparr>msg_role = ''user'', msg_content = [Text (JStr ''Ada met Alan.'')]\<rparr>,
                     \<lparr>msg_role = ''user'', msg_content = [RawText ''see'', Other ''image'']\<rparr>]\<rparr>,
      row_output = JsonOutput [(''raw'', JStr ''{person: []}'')],
      row_value = JsonOutput [(''raw'', JStr ''{person: [Ada, Alan]}'')],
      row_episode_id = ''e2''\<rparr>"

text \<open>
  A stand-in for NumPy's generator (the shuffle reverses the array and advances the
  state), a data frame of four rows over three episodes and one of five rows over five
  episodes.
\<close>

definition rev_rng :: "nat np_random" where
  "rev_rng = \<lparr>random_seed = (\<lambda>n. n), random_shuffle = (\<lambda>g xs. (rev xs, Suc g))\<rparr>"

definition demo_row :: "string \<Rightarrow> rat example_row" where
  "demo_row e =
     \<lparr>row_variant_name = ''gpt_4o_mini'', row_input = \<lparr>system = None, messages = []\<rparr>,
      row_output = JsonOutput [], row_value = 1, row_episode_id = e, openai_messages = []\<rparr>"

definition demo_df :: "rat example_row list" where
  "demo_df = [demo_row ''e1'', demo_row ''e2'', demo_row ''e1'', demo_row ''e3'']"

definition five_episodes :: "rat example_row list" where
  "five_episodes =
     [demo_row ''e1'', demo_row ''e2'', demo_row ''e3'', demo_row ''e4'', demo_row ''e5'']"

section \<open>Properties of the rendering functions\<close>

lemma join_Cons: "join sep (x # xs) = x @ concat (map (\<lambda>y. sep @ y) xs)"
  by (induction xs arbitrary: x) simp_all

lemma part_text_TextPart: "map (part_text \<circ> TextPart) xs = xs"
  by (induction xs) (simp_all add: part_text_def)

lemma render_blocks_fireworks_append:
  "render_blocks_fireworks g r (bs @ cs) a =
     (case render_blocks_fireworks g r bs a of
        Inl e \<Rightarrow> Inl e
      | Inr None \<Rightarrow> Inr None
      | Inr (Some a') \<Rightarrow> render_blocks_fireworks g r cs a')"
  by (induction bs arbitrary: a) (auto split: sum.splits option.splits)

lemma render_blocks_openai_append:
  "render_blocks_openai g r (bs @ cs) a =
     (case render_blocks_openai g r bs a of
        Inl e \<Rightarrow> Inl e
      | Inr None \<Rightarrow> Inr None
      | Inr (Some a') \<Rightarrow> render_blocks_openai g r cs a')"
  by (induction bs arbitrary: a) (auto split: sum.splits option.splits)

lemma render_block_fireworks_Some:
  assumes "render_block_fireworks g r b (c, tc, rm) = Inr (Some (c', tc', rm'))"
  shows "c' = c @ map TextPart (block_texts g r b)
       \<and> tc' = tc @ block_tool_calls g b
       \<and> rm' = rm @ block_tool_messages b
       \<and> (block_tool_calls g b \<noteq> [] \<longrightarrow> r = ''assistant'')
       \<and> (block_tool_messages b \<noteq> [] \<longrightarrow> r = ''user'')"
  using assms by (cases b) (auto split: sum.splits if_splits)


lemma render_blocks_fireworks_Some:
  assumes "render_blocks_fireworks g r bs (c, tc, rm) = Inr (Some (c', tc', rm'))"
  shows "c' = c @ map TextPart (rendered_texts g r bs)
       \<and> tc' = tc @ tool_calls_of g bs
       \<and> rm' = rm @ tool_messages bs
       \<and> (tool_calls_of g bs \<noteq> [] \<longrightarrow> r = ''assistant'')
       \<and> (tool_messages bs \<noteq> [] \<longrightarrow> r = ''user'')"
  using assms
proof (induction bs arbitrary: c tc rm)
  case Nil
  then show ?case by (simp add: rendered_texts_def tool_calls_of_def tool_messages_def)
next
  case (Cons b bs)
  from Cons.prems obtain c1 tc1 rm1 where
    step: "render_block_fireworks g r b (c, tc, rm) = Inr (Some (c1, tc1, rm1))" and
    rest: "render_blocks_fireworks g r bs (c1, tc1, rm1) = Inr (Some (c', tc', rm'))"
    by (auto split: sum.splits option.splits)
  note s = render_block_fireworks_Some [OF step]
  note i = Cons.IH [OF rest]
  from s i show ?case
    by (auto simp: rendered_texts_def tool_calls_of_def tool_messages_def)
qed


text \<open>
  The shape of every rendered message.
\<close>

lemma render_message_fireworks_Some:
  assumes "render_message_fireworks g m = Inr (Some ms)"
  shows "ms = tool_messages (msg_content m) @
           (if rendered_texts g (msg_role m) (msg_content m) \<noteq> [] \<or> tool_calls_of g (msg_content m) \<noteq> [] then
              [\<lparr>role = msg_role m,
                content = (if rendered_texts g (msg_role m) (msg_content m) \<noteq> []
                           then Some (Str (join newline (rendered_texts g (msg_role m) (msg_content m))))
                           else None),
                tool_calls = (if tool_calls_of g (msg_content m) \<noteq> []
                              then Some (tool_calls_of g (msg_content m)) else None),
                tool_call_id = None\<rparr>]
            else [])
       \<and> (tool_calls_of g (msg_content m) \<noteq> [] \<longrightarrow> msg_role m = ''assistant'')
       \<and> (tool_messages (msg_content m) \<noteq> [] \<longrightarrow> msg_role m = ''user'')"
proof -
  from assms obtain c tc rm where
    loop: "render_blocks_fireworks g (msg_role m) (msg_content m) ([], [], []) = Inr (Some (c, tc, rm))"
    and ms: "ms = finish_fireworks (msg_role m) (c, tc, rm)"
    by (auto simp: render_message_fireworks_def Let_def split: if_splits sum.splits option.splits)
  from render_blocks_fireworks_Some [OF loop]
  have "c = map TextPart (rendered_texts g (msg_role m) (msg_content m))"
    and "tc = tool_calls_of g (msg_content m)" and "rm = tool_messages (msg_content m)"
    and "tool_calls_of g (msg_content m) \<noteq> [] \<longrightarrow> msg_role m = ''assistant''"
    and "tool_messages (msg_content m) \<noteq> [] \<longrightarrow> msg_role m = ''user''"
    by simp_all
  with ms show ?thesis
    by (auto simp: finish_fireworks_def part_text_TextPart)
qed




section \<open>Properties of the assembly loop\<close>

lemma render_inputs_fireworks_extend_all:
  "render_inputs_fireworks g ms rms = extend_all (render_message_fireworks g) ms rms"
  by (induction ms arbitrary: rms) (auto split: sum.splits option.splits)

lemma render_inputs_openai_extend_all:
  "render_inputs_openai g ms rms = extend_all (render_message_openai g) ms rms"
  by (induction ms arbitrary: rms) (auto split: sum.splits option.splits)

lemma extend_all_Some_D:
  "extend_all f ms rms = Inr (Some out) \<Longrightarrow>
     \<exists>rs. map f ms = map (\<lambda>r. Inr (Some r)) rs \<and> out = rms @ concat rs"
proof (induction ms arbitrary: rms)
  case Nil
  then show ?case by simp
next
  case (Cons m ms)
  from Cons.prems obtain r where r: "f m = Inr (Some r)"
    and rest: "extend_all f ms (rms @ r) = Inr (Some out)"
    by (auto split: sum.splits option.splits)
  from Cons.IH [OF rest] obtain rs where
    "map f ms = map (\<lambda>r. Inr (Some r)) rs" and "out = (rms @ r) @ concat rs"
    by blast
  with r have "map f (m # ms) = map (\<lambda>r. Inr (Some r)) (r # rs) \<and> out = rms @ concat (r # rs)"
    by simp
  then show ?case by blast
qed

lemma extend_all_Some_I:
  "map f ms = map (\<lambda>r. Inr (Some r)) rs \<Longrightarrow> extend_all f ms rms = Inr (Some (rms @ concat rs))"
proof (induction ms arbitrary: rms rs)
  case Nil
  then show ?case by simp
next
  case (Cons m ms)
  from Cons.prems obtain r rs' where rs: "rs = r # rs'" and r: "f m = Inr (Some r)"
    and rest: "map f ms = map (\<lambda>r. Inr (Some r)) rs'"
    by (cases rs) auto
  from Cons.IH [OF rest, of "rms @ r"] r show ?case
    by (simp add: rs)
qed

lemma extend_all_None_I:
  "map f ms = map (\<lambda>r. Inr (Some r)) rs @ Inr None # rest \<Longrightarrow> extend_all f ms rms = Inr None"
proof (induction rs arbitrary: ms rms)
  case Nil
  then obtain m ms' where "ms = m # ms'" and "f m = Inr None"
    by (cases ms) auto
  then show ?case by simp
next
  case (Cons r rs)
  from Cons.prems obtain m ms' where ms: "ms = m # ms'" and r: "f m = Inr (Some r)"
    and rest: "map f ms' = map (\<lambda>r. Inr (Some r)) rs @ Inr None # rest"
    by (cases ms) auto
  from Cons.IH [OF rest, of "rms @ r"] r show ?case
    by (simp add: ms)
qed

lemma assemble_all_or_nothing:
  assumes res: "res =
     (case sys of
        Inl e \<Rightarrow> Inl e
      | Inr s \<Rightarrow>
         (case extend_all f ms s of
            Inl e \<Rightarrow> Inl e
          | Inr None \<Rightarrow> Inr None
          | Inr (Some rms) \<Rightarrow>
             (case out of
                Inl e \<Rightarrow> Inl e
              | Inr None \<Rightarrow> Inr None
              | Inr (Some m) \<Rightarrow> Inr (Some (rms @ [m])))))"
  shows "all_or_nothing sys (map f ms) out res"
proof (cases sys)
  case (Inl e)
  with res have r: "res = Inl e" by simp
  show ?thesis
    unfolding all_or_nothing_def r Inl by simp
next
  case (Inr s0)
  note sys = Inr
  show ?thesis
  proof (cases "extend_all f ms s0")
    case (Inl e)
    with res sys have r: "res = Inl e" by simp
    have no_full: "map f ms \<noteq> map (\<lambda>r. Inr (Some r)) rs" for rs
    proof
      assume "map f ms = map (\<lambda>r. Inr (Some r)) rs"
      from extend_all_Some_I [OF this, of s0] Inl show False by simp
    qed
    have no_drop: "map f ms \<noteq> map (\<lambda>r. Inr (Some r)) rs @ Inr None # rest" for rs rest
    proof
      assume "map f ms = map (\<lambda>r. Inr (Some r)) rs @ Inr None # rest"
      from extend_all_None_I [OF this, of s0] Inl show False by simp
    qed
    show ?thesis
      unfolding all_or_nothing_def r
    proof (intro conjI allI impI)
      fix ex assume "Inl e = (Inr (Some ex) :: error + rendered_message list option)"
      then show "\<exists>s rs m. sys = Inr s \<and> map f ms = map (\<lambda>r. Inr (Some r)) rs \<and>
          out = Inr (Some m) \<and> ex = s @ concat rs @ [m]"
        by simp
    next
      fix ex show "Inl e \<noteq> (Inr (Some ex) :: error + rendered_message list option)" by simp
    next
      fix s rs rest
      assume "map f ms = map (\<lambda>r. Inr (Some r)) rs @ Inr None # rest"
      with no_drop show "Inl e = (Inr None :: error + rendered_message list option)"
        by blast
    next
      fix s rs
      assume "map f ms = map (\<lambda>r. Inr (Some r)) rs"
      with no_full show "Inl e = (Inr None :: error + rendered_message list option)"
        by blast
    next
      fix s rs m
      assume "map f ms = map (\<lambda>r. Inr (Some r)) rs"
      with no_full show "Inl e = (Inr (Some (s @ concat rs @ [m])) :: error + rendered_message list option)"
        by blast
    qed
  next
    case (Inr x)
    note loop = Inr
    show ?thesis
    proof (cases x)
      case None
      with res sys loop have r: "res = Inr None" by simp
      have no_full: "map f ms \<noteq> map (\<lambda>r. Inr (Some r)) rs" for rs
      proof
        assume "map f ms = map (\<lambda>r. Inr (Some r)) rs"
        from extend_all_Some_I [OF this, of s0] loop None show False by simp
      qed
      show ?thesis
        unfolding all_or_nothing_def r by (simp add: no_full)
    next
      case (Some rms)
      from extend_all_Some_D [OF loop [unfolded Some]] obtain rs0 where
        ins: "map f ms = map (\<lambda>r. Inr (Some r)) rs0" and rms: "rms = s0 @ concat rs0"
        by blast
      have inj: "rs = rs0" if "map (\<lambda>r. Inr (Some r)) rs0 = map (\<lambda>r::rendered_message list. (Inr (Some r) :: error + rendered_message list option)) rs" for rs
        using that by (simp add: inj_on_def inj_map_eq_map)
      have no_none: "(Inr None :: error + rendered_message list option) \<notin> set (map (\<lambda>r. Inr (Some r)) rs0)"
        by auto
      have no_drop: "map (\<lambda>r. Inr (Some r)) rs0 \<noteq> map (\<lambda>r. Inr (Some r)) rs @ (Inr None :: error + rendered_message list option) # rest" for rs rest
      proof
        assume "map (\<lambda>r. Inr (Some r)) rs0 = map (\<lambda>r. Inr (Some r)) rs @ (Inr None :: error + rendered_message list option) # rest"
        then have "(Inr None :: error + rendered_message list option) \<in> set (map (\<lambda>r. Inr (Some r)) rs0)"
          by simp
        with no_none show False by contradiction
      qed
      show ?thesis
      proof (cases out)
        case (Inl e)
        with res sys loop Some have r: "res = Inl e" by simp
        show ?thesis
          unfolding all_or_nothing_def r Inl ins
        proof (intro conjI allI impI)
          fix ex assume "Inl e = (Inr (Some ex) :: error + rendered_message list option)"
          then show "\<exists>s rs m. sys = Inr s \<and>
              map (\<lambda>r. Inr (Some r)) rs0 = map (\<lambda>r. (Inr (Some r) :: error + rendered_message list option)) rs \<and>
              (Inl e :: error + rendered_message option) = Inr (Some m) \<and> ex = s @ concat rs @ [m]"
            by simp
        next
          fix ex show "Inl e \<noteq> (Inr (Some ex) :: error + rendered_message list option)" by simp
        next
          fix s rs rest
          assume "map (\<lambda>r. Inr (Some r)) rs0 = map (\<lambda>r. Inr (Some r)) rs @ (Inr None :: error + rendered_message list option) # rest"
          with no_drop show "Inl e = (Inr None :: error + rendered_message list option)"
            by blast
        next
          fix s rs
          assume "(Inl e :: error + rendered_message option) = Inr None"
          then show "Inl e = (Inr None :: error + rendered_message list option)" by simp
        next
          fix s rs m
          assume "(Inl e :: error + rendered_message option) = Inr (Some m)"
          then show "Inl e = (Inr (Some (s @ concat rs @ [m])) :: error + rendered_message list option)"
            by simp
        qed
      next
        case (Inr y)
        note out = Inr
        show ?thesis
        proof (cases y)
          case None
          with res sys loop Some out have r: "res = Inr None" by simp
          show ?thesis
            unfolding all_or_nothing_def r out None by simp
        next
          case (Some m0)
          with res sys loop \<open>x = Some rms\<close> out have r: "res = Inr (Some (rms @ [m0]))" by simp
          show ?thesis
            unfolding all_or_nothing_def r out Some sys ins rms
          proof (intro conjI allI impI)
            fix ex assume "Inr (Some ((s0 @ concat rs0) @ [m0])) = (Inr (Some ex) :: error + rendered_message list option)"
            then have "ex = s0 @ concat rs0 @ [m0]" by simp
            then show "\<exists>s rs m. (Inr s0 :: error + rendered_message list) = Inr s \<and>
                map (\<lambda>r. Inr (Some r)) rs0 = map (\<lambda>r. (Inr (Some r) :: error + rendered_message list option)) rs \<and>
                (Inr (Some m0) :: error + rendered_message option) = Inr (Some m) \<and> ex = s @ concat rs @ [m]"
              by (intro exI [of _ s0] exI [of _ rs0] exI [of _ m0]) simp
          next
            fix ex
            assume "(Inr None :: error + rendered_message list option) \<in> set (map (\<lambda>r. Inr (Some r)) rs0)
                \<or> (Inr (Some m0) :: error + rendered_message option) = Inr None"
            with no_none show "Inr (Some ((s0 @ concat rs0) @ [m0])) \<noteq> (Inr (Some ex) :: error + rendered_message list option)"
              by simp
          next
            fix s rs rest
            assume "map (\<lambda>r. Inr (Some r)) rs0 = map (\<lambda>r. Inr (Some r)) rs @ (Inr None :: error + rendered_message list option) # rest"
            with no_drop show "(Inr (Some ((s0 @ concat rs0) @ [m0])) :: error + rendered_message list option) = Inr None"
              by blast
          next
            fix s rs
            assume "(Inr (Some m0) :: error + rendered_message option) = Inr None"
            then show "(Inr (Some ((s0 @ concat rs0) @ [m0])) :: error + rendered_message list option) = Inr None"
              by simp
          next
            fix s rs m
            assume "(Inr s0 :: error + rendered_message list) = Inr s"
              and "map (\<lambda>r. Inr (Some r)) rs0 = map (\<lambda>r. (Inr (Some r) :: error + rendered_message list option)) rs"
              and "(Inr (Some m0) :: error + rendered_message option) = Inr (Some m)"
            with inj show "(Inr (Some ((s0 @ concat rs0) @ [m0])) :: error + rendered_message list option) =
                Inr (Some (s @ concat rs @ [m]))"
              by simp
          qed
        qed
      qed
    qed
  qed
qed

lemma all_or_nothing_full:
  assumes "all_or_nothing sys ins out res"
  shows "sys = Inr s \<Longrightarrow> ins = map (\<lambda>r. Inr (Some r)) rs \<Longrightarrow> out = Inr (Some m) \<Longrightarrow>
         res = Inr (Some (s @ concat rs @ [m]))"
proof -
  from assms have "\<forall>s rs m. sys = Inr s \<longrightarrow> ins = map (\<lambda>r. Inr (Some r)) rs \<longrightarrow>
      out = Inr (Some m) \<longrightarrow> res = Inr (Some (s @ concat rs @ [m]))"
    unfolding all_or_nothing_def by (elim conjE)
  note a = this [rule_format]
  show "sys = Inr s \<Longrightarrow> ins = map (\<lambda>r. Inr (Some r)) rs \<Longrightarrow> out = Inr (Some m) \<Longrightarrow>
         res = Inr (Some (s @ concat rs @ [m]))"
    by (rule a)
qed

lemma all_or_nothing_dropped_input:
  assumes "all_or_nothing sys ins out res"
  shows "sys = Inr s \<Longrightarrow> ins = map (\<lambda>r. Inr (Some r)) rs @ Inr None # rest \<Longrightarrow> res = Inr None"
proof -
  from assms have "\<forall>s rs rest. sys = Inr s \<longrightarrow>
      ins = map (\<lambda>r. Inr (Some r)) rs @ Inr None # rest \<longrightarrow> res = Inr None"
    unfolding all_or_nothing_def by (elim conjE)
  note a = this [rule_format]
  show "sys = Inr s \<Longrightarrow> ins = map (\<lambda>r. Inr (Some r)) rs @ Inr None # rest \<Longrightarrow> res = Inr None"
    by (rule a)
qed

section \<open>Properties of the split\<close>

lemma set_unique_from: "set (unique_from seen xs) = set xs - set seen"
  by (induction xs arbitrary: seen) auto

lemma distinct_unique_from: "distinct (unique_from seen xs)"
  by (induction xs arbitrary: seen) (auto simp: set_unique_from)

lemma set_unique: "set (unique xs) = set xs"
  by (simp add: unique_def set_unique_from)

lemma distinct_unique: "distinct (unique xs)"
  by (simp add: unique_def distinct_unique_from)

lemma shuffled_episode_ids_perm:
  assumes "\<forall>g xs. mset (fst (random_shuffle rng g xs)) = mset xs"
  shows "distinct (fst (shuffled_episode_ids rng df))"
    and "set (fst (shuffled_episode_ids rng df)) = row_episode_id ` set df"
    and "length (fst (shuffled_episode_ids rng df)) = card (row_episode_id ` set df)"
proof -
  let ?u = "unique (map row_episode_id df)"
  let ?ids = "fst (shuffled_episode_ids rng df)"
  from assms have m: "mset ?ids = mset ?u"
    by (simp add: shuffled_episode_ids_def Let_def)
  from m have s: "set ?ids = set ?u" by (rule mset_eq_setD)
  from m distinct_unique [of "map row_episode_id df"] show d: "distinct ?ids"
    by (metis mset_eq_imp_distinct_iff)
  from s show s': "set ?ids = row_episode_id ` set df"
    by (simp add: set_unique)
  from d have "length ?ids = card (set ?ids)" by (simp add: distinct_card)
  with s' show "length ?ids = card (row_episode_id ` set df)" by simp
qed

section \<open>Properties of the double arithmetic\<close>

lemma pow2_pos: "0 < pow2 e"
  by (simp add: pow2_def)

lemma round_half_even_bounds:
  shows "\<lfloor>x\<rfloor> \<le> round_half_even x"
    and "round_half_even x \<le> \<lfloor>x\<rfloor> + 1"
    and "\<bar>of_int (round_half_even x) - x\<bar> \<le> 1 / 2"
proof -
  show "\<lfloor>x\<rfloor> \<le> round_half_even x"
    by (simp add: round_half_even_def Let_def)
  show "round_half_even x \<le> \<lfloor>x\<rfloor> + 1"
    by (simp add: round_half_even_def Let_def)
  define d where "d = x - of_int \<lfloor>x\<rfloor>"
  have d: "0 \<le> d" "d < 1" unfolding d_def by linarith+
  have x: "x = of_int \<lfloor>x\<rfloor> + d" by (simp add: d_def)
  consider "d < 1 / 2" | "1 / 2 < d" | "d = 1 / 2" by linarith
  then show "\<bar>of_int (round_half_even x) - x\<bar> \<le> 1 / 2"
  proof cases
    case 1
    then have "round_half_even x = \<lfloor>x\<rfloor>"
      by (simp add: round_half_even_def Let_def d_def)
    then have "of_int (round_half_even x) - x = - d" by (simp add: d_def)
    with 1 d show ?thesis by simp
  next
    case 2
    then have "round_half_even x = \<lfloor>x\<rfloor> + 1"
      by (simp add: round_half_even_def Let_def d_def)
    then have "of_int (round_half_even x) - x = 1 - d" by (simp add: d_def)
    with 2 d show ?thesis by simp
  next
    case 3
    then have "round_half_even x = \<lfloor>x\<rfloor> \<or> round_half_even x = \<lfloor>x\<rfloor> + 1"
      by (simp add: round_half_even_def Let_def d_def)
    then have "of_int (round_half_even x) - x = - d \<or> of_int (round_half_even x) - x = 1 - d"
      by (auto simp: d_def)
    with 3 show ?thesis by auto
  qed
qed

lemma round_half_even_nonneg: "0 \<le> x \<Longrightarrow> 0 \<le> round_half_even x"
  using round_half_even_bounds(1) [of x] by (simp add: order_trans [of 0 "\<lfloor>x\<rfloor>"])

lemma pow2_Suc: "pow2 (e + 1) = 2 * pow2 e"
proof (cases "0 \<le> e")
  case True
  then show ?thesis by (simp add: pow2_def nat_add_distrib)
next
  case False
  then have e: "nat (- e) = Suc (nat (- (e + 1)))" by simp
  show ?thesis
  proof (cases "e = -1")
    case True
    then show ?thesis by (simp add: pow2_def)
  next
    case False
    with \<open>\<not> 0 \<le> e\<close> have "\<not> 0 \<le> e + 1" by simp
    with \<open>\<not> 0 \<le> e\<close> show ?thesis
      by (simp add: pow2_def e)
  qed
qed

lemma pow2_add_nat: "pow2 (e + int n) = 2 ^ n * pow2 e"
proof (induction n)
  case 0
  show ?case by simp
next
  case (Suc n)
  have "e + int (Suc n) = (e + int n) + 1" by simp
  then have "pow2 (e + int (Suc n)) = pow2 ((e + int n) + 1)" by (simp only:)
  also have "\<dots> = 2 * pow2 (e + int n)" by (rule pow2_Suc)
  finally show ?case by (simp add: Suc.IH)
qed

lemma double_nonneg: "0 \<le> x \<Longrightarrow> 0 \<le> double x"
  by (simp add: double_def Let_def round_half_even_nonneg pow2_pos less_imp_le)

lemma exponent_bounds:
  assumes "0 < x"
  shows "pow2 (exponent x) \<le> x" and "x < pow2 (exponent x + 1)"
proof -
  have "pow2 (exponent x) \<le> x \<and> x < pow2 (exponent x + 1)"
  proof (cases "1 \<le> x")
    case True
    define k where "k = \<lfloor>x\<rfloor>"
    from True have k: "0 < k" by (simp add: k_def)
    from bitlen_bounds [OF k] have lo: "2 ^ nat (bitlen k - 1) \<le> k" and hi: "k < 2 ^ nat (bitlen k)"
      by simp_all
    from k have b: "1 \<le> bitlen k" by (simp add: bitlen_alt_def)
    have e: "exponent x = bitlen k - 1" using True by (simp add: exponent_def k_def)
    have "pow2 (exponent x) = of_int (2 ^ nat (bitlen k - 1))"
      using b by (simp add: e pow2_def)
    also have "\<dots> \<le> of_int k" using lo by (simp only: of_int_le_iff)
    also have "\<dots> \<le> x" by (simp add: k_def)
    finally have 1: "pow2 (exponent x) \<le> x" .
    have "x < of_int (k + 1)" unfolding k_def by linarith
    also from hi have "k + 1 \<le> 2 ^ nat (bitlen k)" by simp
    then have "(of_int (k + 1) :: rat) \<le> of_int (2 ^ nat (bitlen k))" by (simp only: of_int_le_iff)
    also have "\<dots> = pow2 (exponent x + 1)" using b by (simp add: e pow2_def)
    finally have 2: "x < pow2 (exponent x + 1)" .
    from 1 2 show ?thesis ..
  next
    case False
    with assms have x1: "x < 1" by simp
    define y where "y = 1 / x"
    from assms x1 have y: "1 < y" by (simp add: y_def)
    define k where "k = \<lceil>y\<rceil> - 1"
    from y have k: "0 < k" unfolding k_def by linarith
    have ky: "of_int k < y" "y \<le> of_int (k + 1)" unfolding k_def by linarith+
    from bitlen_bounds [OF k] have lo: "2 ^ nat (bitlen k - 1) \<le> k" and hi: "k < 2 ^ nat (bitlen k)"
      by simp_all
    from k have b: "1 \<le> bitlen k" by (simp add: bitlen_alt_def)
    have e: "exponent x = - bitlen k" using False by (simp add: exponent_def k_def y_def)
    from hi have "k + 1 \<le> 2 ^ nat (bitlen k)" by simp
    then have "(of_int (k + 1) :: rat) \<le> of_int (2 ^ nat (bitlen k))" by (simp only: of_int_le_iff)
    with ky(2) have "y \<le> 2 ^ nat (bitlen k)" by simp
    then have "1 / x \<le> 2 ^ nat (bitlen k)" by (simp add: y_def)
    with assms have "1 / 2 ^ nat (bitlen k) \<le> x"
      by (simp add: field_simps)
    moreover have "pow2 (exponent x) = 1 / 2 ^ nat (bitlen k)"
      using b by (simp add: e pow2_def)
    ultimately have 1: "pow2 (exponent x) \<le> x" by simp
    have "(2::rat) ^ nat (bitlen k - 1) = of_int (2 ^ nat (bitlen k - 1))" by simp
    also from lo have "\<dots> \<le> of_int k" by (simp only: of_int_le_iff)
    also note ky(1)
    finally have "2 ^ nat (bitlen k - 1) < y" .
    then have "2 ^ nat (bitlen k - 1) < 1 / x" by (simp add: y_def)
    with assms have "x < 1 / 2 ^ nat (bitlen k - 1)"
      by (simp add: field_simps)
    moreover have "pow2 (exponent x + 1) = 1 / 2 ^ nat (bitlen k - 1)"
    proof (cases "bitlen k = 1")
      case True
      then show ?thesis by (simp add: e pow2_def)
    next
      case False
      with b have "1 < bitlen k" by simp
      then have "\<not> 0 \<le> - bitlen k + 1" and "nat (- (- bitlen k + 1)) = nat (bitlen k - 1)"
        by simp_all
      then show ?thesis by (simp add: e pow2_def)
    qed
    ultimately have 2: "x < pow2 (exponent x + 1)" by simp
    from 1 2 show ?thesis ..
  qed
  then show "pow2 (exponent x) \<le> x" and "x < pow2 (exponent x + 1)" by simp_all
qed

lemma double_error:
  assumes "x \<noteq> 0"
  shows "\<bar>double x - x\<bar> \<le> pow2 (exponent \<bar>x\<bar> - 52) / 2"
proof -
  let ?u = "pow2 (exponent \<bar>x\<bar> - 52)"
  have u: "0 < ?u" by (rule pow2_pos)
  have "double x - x = (of_int (round_half_even (x / ?u)) - x / ?u) * ?u"
    using assms u by (simp add: double_def Let_def algebra_simps)
  then have "\<bar>double x - x\<bar> = \<bar>of_int (round_half_even (x / ?u)) - x / ?u\<bar> * ?u"
    using u by (simp add: abs_mult)
  also have "\<dots> \<le> (1 / 2) * ?u"
    using round_half_even_bounds(3) [of "x / ?u"] u by (intro mult_right_mono) simp_all
  finally show ?thesis by simp
qed

text \<open>Each rounding has a relative error of at most \<open>2 ^ -53\<close>.\<close>

lemma double_relative_error: "\<bar>double x - x\<bar> \<le> \<bar>x\<bar> / 2 ^ 53"
proof (cases "x = 0")
  case True
  then show ?thesis by (simp add: double_def)
next
  case False
  let ?e = "exponent \<bar>x\<bar>"
  from False have pos: "0 < \<bar>x\<bar>" by simp
  have "pow2 ?e = pow2 ((?e - 52) + int 52)" by simp
  also have "\<dots> = 2 ^ 52 * pow2 (?e - 52)" by (rule pow2_add_nat)
  finally have u: "pow2 (?e - 52) = pow2 ?e / 2 ^ 52" by simp
  from double_error [OF False] have "\<bar>double x - x\<bar> \<le> pow2 ?e / 2 ^ 52 / 2"
    by (simp only: u)
  also have "\<dots> = pow2 ?e / 2 ^ 53" by simp
  also from exponent_bounds(1) [OF pos] have "\<dots> \<le> \<bar>x\<bar> / 2 ^ 53"
    by (intro divide_right_mono) simp_all
  finally show ?thesis .
qed

text \<open>
  The model agrees with Python on \<open>int(5 * (1 - 0.8)) = 0\<close>,
  \<open>int(90 * (1 - 0.3)) = 62\<close>, \<open>int(10 * (1 - 0.2)) = 8\<close> and
  \<open>int(3 * (1 - 0.5)) = 1\<close>; exact arithmetic gives 1 and 63 in the first two.
\<close>

lemma split_index_values:
  shows "split_index 5 (double (4 / 5)) = 0"
    and "split_index 90 (double (3 / 10)) = 62"
    and "split_index 10 (double (1 / 5)) = 8"
    and "split_index 3 (double (1 / 2)) = 1"
  by code_simp+

lemma split_index_range:
  assumes "0 \<le> v" and "v \<le> 1"
  shows "split_index n v = \<lfloor>double (double (of_nat n) * double (1 - v))\<rfloor>"
    and "0 \<le> split_index n v"
proof -
  have "0 \<le> double (of_nat n)" by (intro double_nonneg) simp
  moreover from assms have "0 \<le> double (1 - v)" by (intro double_nonneg) simp
  ultimately have "0 \<le> double (of_nat n) * double (1 - v)" by (rule mult_nonneg_nonneg)
  then have nn: "0 \<le> double (double (of_nat n) * double (1 - v))" by (rule double_nonneg)
  then show "split_index n v = \<lfloor>double (double (of_nat n) * double (1 - v))\<rfloor>"
    by (simp add: split_index_def py_int_def)
  from nn show "0 \<le> split_index n v"
    by (simp add: split_index_def py_int_def)
qed

section \<open>The claims\<close>

subsection \<open>C1: the feedback query\<close>

text \<open>
  C1. The claim: with a metric supplied, the query returns exactly the joined rows whose
  most recent feedback value for the metric satisfies the comparison, and a row whose
  most recent feedback fails it is excluded even if an older value passes. The query
  numbers the feedback rows per target by descending timestamp and joins on
  \<open>rn = 1\<close>, but its threshold test sits in the subquery's \<open>WHERE\<close>, which
  runs before the window function: the most recent row is picked among the passing rows
  only. Below, inference \<open>i1\<close> has the feedback 1 at time 100 and the newer feedback 0
  at time 200 for a boolean metric to maximise (\<open>value >= 0.5\<close>); the query returns
  the row, with the superseded value 1, although the newer value fails the comparison
  and alone excludes the row.
\<close>

theorem query_df_keeps_superseded_feedback:
  "query_df
     [\<lparr>inf_id = ''i1'', inf_function_name = ''extract_entities'', inf_variant_name = ''gpt_4o_mini'',
       inf_input = ''{}'', inf_output = ''{}'', inf_episode_id = ''e1''\<rparr>]
     [\<lparr>fb_target_id = ''i1'', fb_metric_name = ''exact_match'', fb_value = 1, fb_timestamp = 100\<rparr>,
      \<lparr>fb_target_id = ''i1'', fb_metric_name = ''exact_match'', fb_value = 0, fb_timestamp = 200\<rparr>]
     ''id'' ''extract_entities'' ''exact_match'' (comparison_operator ''max'') (threshold ''boolean'' (1 / 2))
     100000
   = [\<lparr>q_variant_name = ''gpt_4o_mini'', q_input = ''{}'', q_output = ''{}'', q_value = 1,
       q_episode_id = ''e1''\<rparr>]
   \<and> \<not> compare_value (comparison_operator ''max'') 0 (threshold ''boolean'' (1 / 2))
   \<and> query_df
     [\<lparr>inf_id = ''i1'', inf_function_name = ''extract_entities'', inf_variant_name = ''gpt_4o_mini'',
       inf_input = ''{}'', inf_output = ''{}'', inf_episode_id = ''e1''\<rparr>]
     [\<lparr>fb_target_id = ''i1'', fb_metric_name = ''exact_match'', fb_value = 0, fb_timestamp = 200\<rparr>]
     ''id'' ''extract_entities'' ''exact_match'' (comparison_operator ''max'') (threshold ''boolean'' (1 / 2))
     100000
   = []"
  by (simp add: query_df_def feedback_subquery_def row_number_def comparison_operator_def
        threshold_def compare_value_def join_column_def)

subsection \<open>C2: thought blocks\<close>

text \<open>
  C2, as stated, fails: in the Fireworks notebook a block whose type is neither
  \<open>text\<close> nor \<open>raw_text\<close> returns \<open>None\<close> when
  \<open>DROP_INVALID_MESSAGES\<close> is set, and a thought is such a block. With the
  committed parameters a message holding one thought is dropped, and so is its row.
\<close>

theorem thought_dropped_when_drop_invalid:
  "DROP_INVALID_MESSAGES notebook_defaults
   \<and> render_message_fireworks notebook_defaults
        \<lparr>msg_role = ''assistant'', msg_content = [Thought ''step by step'']\<rparr> = Inr None
   \<and> sample_to_conversational_messages notebook_defaults
        \<lparr>row_variant_name = ''gpt_4o_mini'',
         row_input = \<lparr>system = None,
            messages = [\<lparr>msg_role = ''assistant'', msg_content = [Thought ''step by step'']\<rparr>]\<rparr>,
         row_output = JsonOutput [(''raw'', JStr ''{}'')],
         row_value = JsonOutput [(''raw'', JStr ''{}'')],
         row_episode_id = ''e1''\<rparr> = Inr None"
  by (simp add: notebook_defaults_def render_message_fireworks_def
        sample_to_conversational_messages_def system_message_def path_truthy_def stub_render_def)

text \<open>
  C2, amended. When drop-invalid is disabled in the Fireworks notebook, and always in the
  OpenAI notebook (which has no such policy), a thought block never causes the example to
  be dropped: the loop passes it with
  \<open><think>text</think>\<close> appended to the message's content and goes on with the
  remaining blocks. Whatever state \<open>(c, tc, rm)\<close> the blocks before the thought
  leave, the blocks after it start from \<open>(c @ [<think>text</think>], tc, rm)\<close>.
\<close>

theorem thought_rendered_unless_drop_invalid:
  "(\<not> DROP_INVALID_MESSAGES g \<longrightarrow>
      render_blocks_fireworks g r (bs @ Thought t # cs) a =
        (case render_blocks_fireworks g r bs a of
           Inl e \<Rightarrow> Inl e
         | Inr None \<Rightarrow> Inr None
         | Inr (Some (c, tc, rm)) \<Rightarrow>
             render_blocks_fireworks g r cs (c @ [TextPart (think t)], tc, rm)))
   \<and> render_blocks_openai g r (bs @ Thought t # cs) a =
        (case render_blocks_openai g r bs a of
           Inl e \<Rightarrow> Inl e
         | Inr None \<Rightarrow> Inr None
         | Inr (Some (c, tc, rm)) \<Rightarrow>
             render_blocks_openai g r cs (c @ [TextPart (think t)], tc, rm))"
proof -
  have fw: "render_blocks_fireworks g r (Thought t # cs) x =
              (case x of (c, tc, rm) \<Rightarrow>
                 render_blocks_fireworks g r cs (c @ [TextPart (think t)], tc, rm))"
    if "\<not> DROP_INVALID_MESSAGES g" for x
    using that by (cases x rule: prod_cases3) simp
  have oa: "render_blocks_openai g r (Thought t # cs) x =
              (case x of (c, tc, rm) \<Rightarrow>
                 render_blocks_openai g r cs (c @ [TextPart (think t)], tc, rm))" for x
    by (cases x rule: prod_cases3) simp
  show ?thesis
    unfolding render_blocks_fireworks_append render_blocks_openai_append
    by (simp add: fw oa split: sum.splits option.splits)
qed

theorem thought_rendered_unless_drop_invalid_witness:
  "\<not> DROP_INVALID_MESSAGES (notebook_defaults\<lparr>DROP_INVALID_MESSAGES := False\<rparr>)
   \<and> render_blocks_fireworks (notebook_defaults\<lparr>DROP_INVALID_MESSAGES := False\<rparr>) ''assistant''
        ([RawText ''Let me see.''] @ Thought ''step by step'' # [RawText ''Done.'']) ([], [], []) =
      Inr (Some ([TextPart ''Let me see.'', TextPart ''<think>step by step</think>'', TextPart ''Done.''], [], []))
   \<and> render_blocks_openai notebook_defaults ''assistant''
        ([RawText ''Let me see.''] @ Thought ''step by step'' # [RawText ''Done.'']) ([], [], []) =
      Inr (Some ([TextPart ''Let me see.'', TextPart ''<think>step by step</think>'', TextPart ''Done.''], [], []))"
  using thought_rendered_unless_drop_invalid
    [of "notebook_defaults\<lparr>DROP_INVALID_MESSAGES := False\<rparr>" "''assistant''"
        "[RawText ''Let me see.'']" "''step by step''" "[RawText ''Done.'']" "([], [], [])"]
  by (simp add: notebook_defaults_def think_def)

subsection \<open>C3: assembly is all-or-nothing\<close>

text \<open>
  C3. For every row, in both notebooks, the assembly is all-or-nothing in the sense of
  \<open>all_or_nothing\<close>: if rendering an input message or the output signals drop, no
  example is returned, never a partial list; otherwise (everything rendered) the result
  is the system message, the rendered input messages and the rendered output, in that
  order.
\<close>

theorem assembly_all_or_nothing:
  "all_or_nothing
     (system_message g (row_input s))
     (map (render_message_fireworks g) (messages (row_input s)))
     (render_output_fireworks g (row_value s))
     (sample_to_conversational_messages g s)
   \<and> all_or_nothing
     (system_message g (row_input s'))
     (map (render_message_openai g) (messages (row_input s')))
     (render_output_openai g (row_output s'))
     (sample_to_openai_messages g s')"
proof
  show "all_or_nothing
     (system_message g (row_input s))
     (map (render_message_fireworks g) (messages (row_input s)))
     (render_output_fireworks g (row_value s))
     (sample_to_conversational_messages g s)"
    unfolding sample_to_conversational_messages_def render_inputs_fireworks_extend_all
    by (rule assemble_all_or_nothing) (rule refl)
  show "all_or_nothing
     (system_message g (row_input s'))
     (map (render_message_openai g) (messages (row_input s')))
     (render_output_openai g (row_output s'))
     (sample_to_openai_messages g s')"
    unfolding sample_to_openai_messages_def render_inputs_openai_extend_all
    by (rule assemble_all_or_nothing) (rule refl)
qed

theorem assembly_all_or_nothing_witness:
  "sample_to_conversational_messages notebook_defaults ok_row =
     Inr (Some [\<lparr>role = ''system'', content = Some (Str ''system:topic''),
                  tool_calls = None, tool_call_id = None\<rparr>,
                \<lparr>role = ''user'', content = Some (Str ''Ada met Alan.''),
                  tool_calls = None, tool_call_id = None\<rparr>,
                \<lparr>role = ''assistant'', content = Some (Raw (JStr ''{person: [Ada, Alan]}'')),
                  tool_calls = None, tool_call_id = None\<rparr>])
   \<and> sample_to_openai_messages notebook_defaults dropped_row = Inr None"
proof -
  let ?S = "\<lparr>role = ''system'', content = Some (Str ''system:topic''),
                  tool_calls = None, tool_call_id = None\<rparr>"
  let ?U = "\<lparr>role = ''user'', content = Some (Str ''Ada met Alan.''),
                  tool_calls = None, tool_call_id = None\<rparr>"
  let ?U' = "\<lparr>role = ''user'', content = Some (Parts [TextPart ''Ada met Alan.'']),
                  tool_calls = None, tool_call_id = None\<rparr>"
  let ?A = "\<lparr>role = ''assistant'', content = Some (Raw (JStr ''{person: [Ada, Alan]}'')),
                  tool_calls = None, tool_call_id = None\<rparr>"
  note t = assembly_all_or_nothing [of notebook_defaults ok_row dropped_row]
  have sys: "system_message notebook_defaults (row_input ok_row) = Inr [?S]"
    by (simp add: system_message_def notebook_defaults_def ok_row_def path_truthy_def
          stub_render_def)
  have ins: "map (render_message_fireworks notebook_defaults) (messages (row_input ok_row)) =
               map (\<lambda>r. Inr (Some r)) [[?U]]"
    by (simp add: render_message_fireworks_def notebook_defaults_def ok_row_def
          finish_fireworks_def part_text_def)
  have out: "render_output_fireworks notebook_defaults (row_value ok_row) = Inr (Some ?A)"
    by (simp add: render_output_fireworks_def notebook_defaults_def ok_row_def getitem_def)
  from t have "all_or_nothing
     (system_message notebook_defaults (row_input ok_row))
     (map (render_message_fireworks notebook_defaults) (messages (row_input ok_row)))
     (render_output_fireworks notebook_defaults (row_value ok_row))
     (sample_to_conversational_messages notebook_defaults ok_row)"
    by (rule conjunct1)
  from all_or_nothing_full [OF this sys ins out]
  have a: "sample_to_conversational_messages notebook_defaults ok_row =
             Inr (Some ([?S] @ concat [[?U]] @ [?A]))" .
  have sys': "system_message notebook_defaults (row_input dropped_row) = Inr [?S]"
    by (simp add: system_message_def notebook_defaults_def dropped_row_def path_truthy_def
          stub_render_def)
  have ins': "map (render_message_openai notebook_defaults) (messages (row_input dropped_row)) =
               map (\<lambda>r. Inr (Some r)) [[?U']] @ Inr None # []"
    by (simp add: render_message_openai_def notebook_defaults_def dropped_row_def
          finish_openai_def)
  from t have "all_or_nothing
     (system_message notebook_defaults (row_input dropped_row))
     (map (render_message_openai notebook_defaults) (messages (row_input dropped_row)))
     (render_output_openai notebook_defaults (row_output dropped_row))
     (sample_to_openai_messages notebook_defaults dropped_row)"
    by (rule conjunct2)
  from all_or_nothing_dropped_input [OF this sys' ins']
  have b: "sample_to_openai_messages notebook_defaults dropped_row = Inr None" .
  from a b show ?thesis by simp
qed

subsection \<open>C4: tool results come first\<close>



subsection \<open>C5: the size of the training set\<close>

text \<open>
  C5, as stated, fails: the split index is \<open>int(len(ids) * (1 - VAL_FRACTION))\<close>,
  and \<open>int\<close> truncates. With three episodes and a validation fraction of one half
  (every step exact in doubles) the index is \<open>int(1.5) = 1\<close>, so one episode
  trains, where the ceiling of the claim gives two.
\<close>

theorem split_index_not_ceiling:
  "split_index 3 (1 / 2) = 1
   \<and> \<lceil>(1 - 1 / 2) * (of_nat 3 :: rat)\<rceil> = 2
   \<and> fst (shuffled_episode_ids rev_rng demo_df) = [''e3'', ''e2'', ''e1'']
   \<and> train_episode_ids (fst (split_cell rev_rng (1 / 2) 0 demo_df)) = [''e3'']
   \<and> val_episode_ids (fst (split_cell rev_rng (1 / 2) 0 demo_df)) = [''e2'', ''e1'']
   \<and> train_episode_ids (fst (split_cell rev_rng (1 / 2) 0 demo_df)) \<noteq>
       take (nat \<lceil>(1 - 1 / 2) * (of_nat (card (row_episode_id ` set demo_df)) :: rat)\<rceil>)
            (fst (shuffled_episode_ids rev_rng demo_df))"
proof -
  have i: "split_index 3 (1 / 2) = 1"
    by code_simp
  have "length [''e3'', ''e2'', ''e1''] = 3" by simp
  with i have i': "split_index (length [''e3'', ''e2'', ''e1'']) (1 / 2) = 1"
    by (simp only:)
  have c: "\<lceil>(1 - 1 / 2) * (of_nat 3 :: rat)\<rceil> = 2"
    by (simp add: ceiling_eq_iff)
  have e: "row_episode_id (demo_row x) = x" for x
    by (simp add: demo_row_def)
  have ids: "shuffled_episode_ids rev_rng demo_df = ([''e3'', ''e2'', ''e1''], 43)"
    by (simp add: shuffled_episode_ids_def rev_rng_def demo_df_def e unique_def)
  have p: "\<forall>g xs. mset (fst (random_shuffle rev_rng g xs)) = mset xs"
    by (simp add: rev_rng_def)
  from shuffled_episode_ids_perm(3) [OF p, of demo_df]
  have k: "card (row_episode_id ` set demo_df) = 3"
    unfolding ids by simp
  have tr: "train_episode_ids (fst (split_cell rev_rng (1 / 2) 0 demo_df)) = [''e3'']"
    unfolding split_cell_def ids prod.case Let_def i'
    by (simp add: slice_to_def)
  have va: "val_episode_ids (fst (split_cell rev_rng (1 / 2) 0 demo_df)) = [''e2'', ''e1'']"
    unfolding split_cell_def ids prod.case Let_def i'
    by (simp add: slice_from_def)
  have ne: "[''e3''] \<noteq> take (nat \<lceil>(1 - 1 / 2) * (of_nat 3 :: rat)\<rceil>) [''e3'', ''e2'', ''e1'']"
    unfolding c by simp
  from i c ne show ?thesis
    unfolding tr va k ids fst_conv by (intro conjI) simp_all
qed

text \<open>
  C5, amended. For every non-empty data frame and every validation fraction in [0, 1],
  the first \<open>int(|groups| * (1 - val_fraction))\<close> keys of the shuffled sequence of
  distinct keys form the training set and the remaining keys the validation set:
  \<open>|groups|\<close> is the number of distinct keys, the difference and the product are
  computed in double arithmetic, and \<open>int\<close> truncates the product, which is not
  negative, to its floor. The closing division by the number of rows does not raise.
  The shuffle is assumed to permute its argument.
\<close>

theorem split_takes_truncated_double_product:
  assumes "\<forall>g xs. mset (fst (random_shuffle rng g xs)) = mset xs"
      and "0 \<le> val_fraction" and "val_fraction \<le> 1"
      and "df \<noteq> []"
  shows "train_episode_ids (fst (split_cell rng val_fraction g0 df)) =
           take (nat \<lfloor>double (double (of_nat (card (row_episode_id ` set df))) *
                              double (1 - val_fraction))\<rfloor>)
                (fst (shuffled_episode_ids rng df))
       \<and> val_episode_ids (fst (split_cell rng val_fraction g0 df)) =
           drop (nat \<lfloor>double (double (of_nat (card (row_episode_id ` set df))) *
                              double (1 - val_fraction))\<rfloor>)
                (fst (shuffled_episode_ids rng df))
       \<and> 0 \<le> double (double (of_nat (card (row_episode_id ` set df))) * double (1 - val_fraction))
       \<and> distinct (fst (shuffled_episode_ids rng df))
       \<and> set (fst (shuffled_episode_ids rng df)) = row_episode_id ` set df
       \<and> 0 < card (row_episode_id ` set df)
       \<and> actual_validation_fraction
            (length (val_df (fst (split_cell rng val_fraction g0 df)))) (length df) =
           Inr (double (of_nat (length (val_df (fst (split_cell rng val_fraction g0 df)))) /
                        of_nat (length df)))"
proof -
  let ?ids = "fst (shuffled_episode_ids rng df)"
  let ?n = "card (row_episode_id ` set df)"
  let ?p = "double (double (of_nat ?n) * double (1 - val_fraction))"
  note p = shuffled_episode_ids_perm [OF assms(1), of df]
  note r = split_index_range [OF assms(2,3), of "length ?ids"]
  have k: "split_index (length ?ids) val_fraction = \<lfloor>?p\<rfloor>"
    using r(1) p(3) by simp
  have tr: "train_episode_ids (fst (split_cell rng val_fraction g0 df)) =
              slice_to (split_index (length ?ids) val_fraction) ?ids"
    by (simp add: split_cell_def Let_def split: prod.splits)
  have va: "val_episode_ids (fst (split_cell rng val_fraction g0 df)) =
              slice_from (split_index (length ?ids) val_fraction) ?ids"
    by (simp add: split_cell_def Let_def split: prod.splits)
  from r(2) have st: "slice_to (split_index (length ?ids) val_fraction) ?ids =
      take (nat (split_index (length ?ids) val_fraction)) ?ids"
    by (simp add: slice_to_def)
  from r(2) have sf: "slice_from (split_index (length ?ids) val_fraction) ?ids =
      drop (nat (split_index (length ?ids) val_fraction)) ?ids"
    by (simp add: slice_from_def)
  have "0 \<le> double (of_nat ?n)" by (intro double_nonneg) simp
  moreover from assms(2,3) have "0 \<le> double (1 - val_fraction)" by (intro double_nonneg) simp
  ultimately have "0 \<le> double (of_nat ?n) * double (1 - val_fraction)"
    by (rule mult_nonneg_nonneg)
  then have nn: "0 \<le> ?p" by (rule double_nonneg)
  from assms(4) have "row_episode_id ` set df \<noteq> {}" by simp
  then have pos: "0 < ?n" by (simp add: card_gt_0_iff)
  from assms(4) have fr: "actual_validation_fraction
            (length (val_df (fst (split_cell rng val_fraction g0 df)))) (length df) =
           Inr (double (of_nat (length (val_df (fst (split_cell rng val_fraction g0 df)))) /
                        of_nat (length df)))"
    by (simp add: actual_validation_fraction_def)
  have 1: "train_episode_ids (fst (split_cell rng val_fraction g0 df)) = take (nat \<lfloor>?p\<rfloor>) ?ids"
    using tr st k by simp
  have 2: "val_episode_ids (fst (split_cell rng val_fraction g0 df)) = drop (nat \<lfloor>?p\<rfloor>) ?ids"
    using va sf k by simp
  from 1 2 nn p(1) p(2) pos fr show ?thesis
    by (intro conjI)
qed

text \<open>
  Five episodes and \<open>VAL_FRACTION = 0.8\<close>: in doubles \<open>1 - 0.8\<close> is
  0.19999999999999996 and its product with 5 is 0.9999999999999998, so
  \<open>int(5 * (1 - 0.8)) = 0\<close> and no episode trains; exact arithmetic would give one.
\<close>

theorem split_takes_truncated_double_product_witness:
  "(\<forall>g xs. mset (fst (random_shuffle rev_rng g xs)) = mset xs)
   \<and> 0 \<le> double (4 / 5) \<and> double (4 / 5) \<le> 1
   \<and> five_episodes \<noteq> []
   \<and> double (4 / 5) = 3602879701896397 / 4503599627370496
   \<and> double (1 - double (4 / 5)) = 900719925474099 / 4503599627370496
   \<and> nat \<lfloor>double (double (of_nat (card (row_episode_id ` set five_episodes))) *
                    double (1 - double (4 / 5)))\<rfloor> = 0
   \<and> train_episode_ids (fst (split_cell rev_rng (double (4 / 5)) 0 five_episodes)) = []
   \<and> val_episode_ids (fst (split_cell rev_rng (double (4 / 5)) 0 five_episodes)) =
        [''e5'', ''e4'', ''e3'', ''e2'', ''e1'']"
proof -
  have p: "\<forall>g xs. mset (fst (random_shuffle rev_rng g xs)) = mset xs"
    by (simp add: rev_rng_def)
  have a: "0 \<le> double (4 / 5)" and b: "double (4 / 5) \<le> 1" by code_simp+
  have n: "five_episodes \<noteq> []" by (simp add: five_episodes_def)
  have v: "double (4 / 5) = 3602879701896397 / 4503599627370496" by code_simp
  have d: "double (1 - double (4 / 5)) = 900719925474099 / 4503599627370496" by code_simp
  have e: "row_episode_id (demo_row x) = x" for x
    by (simp add: demo_row_def)
  have ids: "shuffled_episode_ids rev_rng five_episodes =
      ([''e5'', ''e4'', ''e3'', ''e2'', ''e1''], 43)"
    by (simp add: shuffled_episode_ids_def rev_rng_def five_episodes_def e unique_def)
  from shuffled_episode_ids_perm(3) [OF p, of five_episodes]
  have k: "card (row_episode_id ` set five_episodes) = 5"
    unfolding ids by simp
  have "nat \<lfloor>double (double (of_nat 5) * double (1 - double (4 / 5)))\<rfloor> = 0"
    by code_simp
  then have f: "nat \<lfloor>double (double (of_nat (card (row_episode_id ` set five_episodes))) *
                    double (1 - double (4 / 5)))\<rfloor> = 0"
    unfolding k .
  note t = split_takes_truncated_double_product [OF p a b n, of 0, unfolded f]
  from t have "train_episode_ids (fst (split_cell rev_rng (double (4 / 5)) 0 five_episodes)) =
        take 0 (fst (shuffled_episode_ids rev_rng five_episodes))"
    by (rule conjunct1)
  then have tr: "train_episode_ids (fst (split_cell rev_rng (double (4 / 5)) 0 five_episodes)) = []"
    by simp
  from t have "val_episode_ids (fst (split_cell rev_rng (double (4 / 5)) 0 five_episodes)) =
        drop 0 (fst (shuffled_episode_ids rev_rng five_episodes))"
    by (rule conjunct2 [THEN conjunct1])
  then have va: "val_episode_ids (fst (split_cell rev_rng (double (4 / 5)) 0 five_episodes)) =
        [''e5'', ''e4'', ''e3'', ''e2'', ''e1'']"
    by (simp add: ids)
  from p a b n v d f tr va show ?thesis
    by (intro conjI)
qed

subsection \<open>C6: the system message\<close>

text \<open>
  C6. The claim: a system message is prepended exactly when the input carries non-empty
  system data or a system template is configured, the raw data passing through when no
  template is configured, and it is omitted without failing when neither exists. The
  code reads \<open>system_template_path\<close>, which is bound only when the variant has a
  system template. For a variant without one, an input without system data raises
  \<open>NameError\<close> where the claim omits the message, and an input with system data
  raises \<open>NameError\<close> where the claim passes the data through; the row functions
  of both notebooks fail with it.
\<close>

theorem system_message_unbound_template_path:
  "system_message (notebook_defaults\<lparr>system_template_path := Unbound\<rparr>)
      \<lparr>system = None, messages = []\<rparr> = Inl NameError
   \<and> system_message (notebook_defaults\<lparr>system_template_path := Unbound\<rparr>)
      \<lparr>system = Some (JStr ''You are a helpful assistant.''), messages = []\<rparr> = Inl NameError
   \<and> sample_to_conversational_messages (notebook_defaults\<lparr>system_template_path := Unbound\<rparr>)
      \<lparr>row_variant_name = ''v'', row_input = \<lparr>system = None, messages = []\<rparr>,
       row_output = JsonOutput [(''raw'', JStr ''{}'')], row_value = JsonOutput [(''raw'', JStr ''{}'')],
       row_episode_id = ''e1''\<rparr> = Inl NameError
   \<and> sample_to_openai_messages (notebook_defaults\<lparr>system_template_path := Unbound\<rparr>)
      \<lparr>row_variant_name = ''v'', row_input = \<lparr>system = None, messages = []\<rparr>,
       row_output = JsonOutput [(''raw'', JStr ''{}'')], row_value = (1::rat),
       row_episode_id = ''e1''\<rparr> = Inl NameError"
  by (simp add: system_message_def notebook_defaults_def sample_to_conversational_messages_def
        sample_to_openai_messages_def)

subsection \<open>C7: no episode straddles the split\<close>

text \<open>
  C7. Whatever the validation fraction, no episode id is in both the training and the
  validation ids, no episode id occurs in both data frames, every row whose episode id is
  in a split's ids is in that split's data frame, and the two id sets together are the
  episode ids of the data frame. The shuffle is assumed to permute its argument.
\<close>

theorem split_groups_disjoint:
  assumes "\<forall>g xs. mset (fst (random_shuffle rng g xs)) = mset xs"
  shows "set (train_episode_ids (fst (split_cell rng val_fraction g0 df))) \<inter>
           set (val_episode_ids (fst (split_cell rng val_fraction g0 df))) = {}
       \<and> row_episode_id ` set (train_df (fst (split_cell rng val_fraction g0 df))) \<inter>
           row_episode_id ` set (val_df (fst (split_cell rng val_fraction g0 df))) = {}
       \<and> (\<forall>r \<in> set df.
            row_episode_id r \<in> set (train_episode_ids (fst (split_cell rng val_fraction g0 df))) \<longrightarrow>
            r \<in> set (train_df (fst (split_cell rng val_fraction g0 df))))
       \<and> (\<forall>r \<in> set df.
            row_episode_id r \<in> set (val_episode_ids (fst (split_cell rng val_fraction g0 df))) \<longrightarrow>
            r \<in> set (val_df (fst (split_cell rng val_fraction g0 df))))
       \<and> set (train_episode_ids (fst (split_cell rng val_fraction g0 df))) \<union>
           set (val_episode_ids (fst (split_cell rng val_fraction g0 df))) = row_episode_id ` set df"
proof -
  let ?ids = "fst (shuffled_episode_ids rng df)"
  let ?k = "split_index (length ?ids) val_fraction"
  let ?s = "fst (split_cell rng val_fraction g0 df)"
  note p = shuffled_episode_ids_perm [OF assms, of df]
  have tr: "train_episode_ids ?s = slice_to ?k ?ids"
    by (simp add: split_cell_def Let_def split: prod.splits)
  have va: "val_episode_ids ?s = slice_from ?k ?ids"
    by (simp add: split_cell_def Let_def split: prod.splits)
  have trd: "train_df ?s = isin df (slice_to ?k ?ids)"
    by (simp add: split_cell_def Let_def split: prod.splits)
  have vad: "val_df ?s = isin df (slice_from ?k ?ids)"
    by (simp add: split_cell_def Let_def split: prod.splits)
  define j where "j = (if ?k < 0 then nat (int (length ?ids) + ?k) else nat ?k)"
  have j: "slice_to ?k ?ids = take j ?ids" "slice_from ?k ?ids = drop j ?ids"
    by (simp_all add: slice_to_def slice_from_def j_def)
  from p(1) have "distinct (take j ?ids @ drop j ?ids)" by simp
  then have dis: "set (take j ?ids) \<inter> set (drop j ?ids) = {}"
    by (simp only: distinct_append)
  have un: "set (take j ?ids) \<union> set (drop j ?ids) = set ?ids"
    by (metis append_take_drop_id set_append)
  have keys_tr: "row_episode_id ` set (isin df (take j ?ids)) \<subseteq> set (take j ?ids)"
    by (auto simp: isin_def)
  have keys_va: "row_episode_id ` set (isin df (drop j ?ids)) \<subseteq> set (drop j ?ids)"
    by (auto simp: isin_def)
  from dis keys_tr keys_va
  have dis_df: "row_episode_id ` set (isin df (take j ?ids)) \<inter>
                row_episode_id ` set (isin df (drop j ?ids)) = {}"
    by blast
  have in_tr: "\<forall>r \<in> set df. row_episode_id r \<in> set (take j ?ids) \<longrightarrow> r \<in> set (isin df (take j ?ids))"
    by (simp add: isin_def)
  have in_va: "\<forall>r \<in> set df. row_episode_id r \<in> set (drop j ?ids) \<longrightarrow> r \<in> set (isin df (drop j ?ids))"
    by (simp add: isin_def)
  from dis dis_df in_tr in_va un p(2) show ?thesis
    unfolding tr va trd vad j by simp
qed

theorem split_groups_disjoint_witness:
  "(\<forall>g xs. mset (fst (random_shuffle rev_rng g xs)) = mset xs)
   \<and> train_df (fst (split_cell rev_rng (1 / 5) 0 demo_df)) = [demo_row ''e2'', demo_row ''e3'']
   \<and> val_df (fst (split_cell rev_rng (1 / 5) 0 demo_df)) = [demo_row ''e1'', demo_row ''e1'']
   \<and> set (train_episode_ids (fst (split_cell rev_rng (1 / 5) 0 demo_df))) \<inter>
       set (val_episode_ids (fst (split_cell rev_rng (1 / 5) 0 demo_df))) = {}"
proof -
  have p: "\<forall>g xs. mset (fst (random_shuffle rev_rng g xs)) = mset xs"
    by (simp add: rev_rng_def)
  have e: "row_episode_id (demo_row x) = x" for x
    by (simp add: demo_row_def)
  have ids: "shuffled_episode_ids rev_rng demo_df = ([''e3'', ''e2'', ''e1''], 43)"
    by (simp add: shuffled_episode_ids_def rev_rng_def demo_df_def e unique_def)
  have "split_index 3 (1 / 5) = 2" by code_simp
  moreover have "length [''e3'', ''e2'', ''e1''] = 3" by simp
  ultimately have i: "split_index (length [''e3'', ''e2'', ''e1'']) (1 / 5) = 2"
    by (simp only:)
  have sc: "fst (split_cell rev_rng (1 / 5) 0 demo_df) =
      \<lparr>train_episode_ids = [''e3'', ''e2''], val_episode_ids = [''e1''],
       train_df = isin demo_df [''e3'', ''e2''], val_df = isin demo_df [''e1'']\<rparr>"
    unfolding split_cell_def ids prod.case Let_def i
    by (simp add: slice_to_def slice_from_def)
  have tr: "train_df (fst (split_cell rev_rng (1 / 5) 0 demo_df)) = [demo_row ''e2'', demo_row ''e3'']"
    unfolding sc by (simp add: isin_def demo_df_def e)
  have va: "val_df (fst (split_cell rev_rng (1 / 5) 0 demo_df)) = [demo_row ''e1'', demo_row ''e1'']"
    unfolding sc by (simp add: isin_def demo_df_def e)
  from split_groups_disjoint [OF p, of "1 / 5" 0 demo_df]
  have "set (train_episode_ids (fst (split_cell rev_rng (1 / 5) 0 demo_df))) \<inter>
       set (val_episode_ids (fst (split_cell rev_rng (1 / 5) 0 demo_df))) = {}"
    by (rule conjunct1)
  with p tr va show ?thesis
    by (intro conjI)
qed

subsection \<open>C8: texts are joined by newlines\<close>

text \<open>
  C8. In the Fireworks notebook (contents as one string), a rendered message whose
  blocks contribute two or more texts ends with the message of the original role, and
  that message's content is the texts of the text-bearing blocks, in source order, joined
  by the line feed character (code 10): the first text, and for each further text a line
  feed followed by the text.
\<close>

theorem content_is_newline_join:
  assumes "render_message_fireworks g m = Inr (Some ms)"
      and "2 \<le> length (rendered_texts g (msg_role m) (msg_content m))"
  shows "ms \<noteq> []
       \<and> role (last ms) = msg_role m
       \<and> content (last ms) =
           Some (Str (join [CHR 0x0A] (rendered_texts g (msg_role m) (msg_content m))))
       \<and> join [CHR 0x0A] (rendered_texts g (msg_role m) (msg_content m)) =
           hd (rendered_texts g (msg_role m) (msg_content m)) @
           concat (map (\<lambda>t. CHR 0x0A # t) (tl (rendered_texts g (msg_role m) (msg_content m))))"
proof -
  from assms(2) have ne: "rendered_texts g (msg_role m) (msg_content m) \<noteq> []"
    by auto
  then obtain x xs where xs: "rendered_texts g (msg_role m) (msg_content m) = x # xs"
    by (cases "rendered_texts g (msg_role m) (msg_content m)") auto
  from render_message_fireworks_Some [OF assms(1)] ne
  have "ms \<noteq> []" and "role (last ms) = msg_role m" and
    "content (last ms) = Some (Str (join newline (rendered_texts g (msg_role m) (msg_content m))))"
    by simp_all
  then have a: "ms \<noteq> []" and b: "role (last ms) = msg_role m" and
    c: "content (last ms) = Some (Str (join [CHR 0x0A] (rendered_texts g (msg_role m) (msg_content m))))"
    by (simp_all add: newline_def)
  have "join [CHR 0x0A] (x # xs) = x @ concat (map (\<lambda>y. [CHR 0x0A] @ y) xs)"
    by (rule join_Cons)
  then have d: "join [CHR 0x0A] (rendered_texts g (msg_role m) (msg_content m)) =
           hd (rendered_texts g (msg_role m) (msg_content m)) @
           concat (map (\<lambda>t. CHR 0x0A # t) (tl (rendered_texts g (msg_role m) (msg_content m))))"
    unfolding xs by simp
  from a b c d show ?thesis by (intro conjI)
qed

theorem content_is_newline_join_witness:
  "render_message_fireworks notebook_defaults
      \<lparr>msg_role = ''user'', msg_content = [Text (JStr ''Hello''), RawText ''world'', Text (JObj [(''topic'', JStr ''x'')])]\<rparr> =
     Inr (Some [\<lparr>role = ''user'', content = Some (Str (''Hello'' @ CHR 0x0A # ''world'' @ CHR 0x0A # ''user:topic'')),
                 tool_calls = None, tool_call_id = None\<rparr>])
   \<and> 2 \<le> length (rendered_texts notebook_defaults ''user''
                  [Text (JStr ''Hello''), RawText ''world'', Text (JObj [(''topic'', JStr ''x'')])])
   \<and> content (last [\<lparr>role = ''user'', content = Some (Str (''Hello'' @ CHR 0x0A # ''world'' @ CHR 0x0A # ''user:topic'')),
                 tool_calls = None, tool_call_id = None\<rparr>]) =
       Some (Str (join [CHR 0x0A] [''Hello'', ''world'', ''user:topic'']))
   \<and> join [CHR 0x0A] [''Hello'', ''world'', ''user:topic''] =
       ''Hello'' @ CHR 0x0A # ''world'' @ CHR 0x0A # ''user:topic''"
proof -
  let ?m = "\<lparr>msg_role = ''user'', msg_content = [Text (JStr ''Hello''), RawText ''world'', Text (JObj [(''topic'', JStr ''x'')])]\<rparr>"
  let ?ms = "[\<lparr>role = ''user'', content = Some (Str (''Hello'' @ CHR 0x0A # ''world'' @ CHR 0x0A # ''user:topic'')),
                 tool_calls = None, tool_call_id = None\<rparr>]"
  have r: "render_message_fireworks notebook_defaults ?m = Inr (Some ?ms)"
    by (simp add: render_message_fireworks_def notebook_defaults_def finish_fireworks_def
          part_text_def stub_render_def newline_def)
  have t: "rendered_texts notebook_defaults ''user''
             [Text (JStr ''Hello''), RawText ''world'', Text (JObj [(''topic'', JStr ''x'')])]
           = [''Hello'', ''world'', ''user:topic'']"
    by (simp add: rendered_texts_def notebook_defaults_def stub_render_def)
  have l: "2 \<le> length (rendered_texts notebook_defaults (msg_role ?m) (msg_content ?m))"
    by (simp add: t)
  have l': "2 \<le> length (rendered_texts notebook_defaults ''user''
                  [Text (JStr ''Hello''), RawText ''world'', Text (JObj [(''topic'', JStr ''x'')])])"
    by (simp add: t)
  from content_is_newline_join [OF r l]
  have "content (last ?ms) =
      Some (Str (join [CHR 0x0A] (rendered_texts notebook_defaults (msg_role ?m) (msg_content ?m))))"
    by (rule conjunct2 [THEN conjunct2, THEN conjunct1])
  then have c: "content (last ?ms) = Some (Str (join [CHR 0x0A] [''Hello'', ''world'', ''user:topic'']))"
    by (simp only: t message.simps)
  have j: "join [CHR 0x0A] [''Hello'', ''world'', ''user:topic''] =
             ''Hello'' @ CHR 0x0A # ''world'' @ CHR 0x0A # ''user:topic''"
    by simp
  from r l' c j show ?thesis by (intro conjI)
qed

subsection \<open>C9: the split is reproducible\<close>

text \<open>
  C9. The cell seeds the generator itself before it shuffles, so its result does not
  depend on the state the generator was in: two runs from any two states agree, and a
  second run started from the state the first run left gives the same split and leaves
  the same state.
\<close>

theorem split_cell_rerun_identical:
  "fst (split_cell rng val_fraction g df) = fst (split_cell rng val_fraction g' df)
   \<and> (case split_cell rng val_fraction g df of
        (first, g1) \<Rightarrow>
          (case split_cell rng val_fraction g1 df of
             (second, g2) \<Rightarrow> second = first \<and> g2 = g1))"
  by (simp add: split_cell_def split: prod.splits)

theorem split_cell_rerun_identical_witness:
  "fst (split_cell rev_rng (1 / 5) 0 demo_df) = fst (split_cell rev_rng (1 / 5) 43 demo_df)"
  using split_cell_rerun_identical [of rev_rng "1 / 5" 0 demo_df 43] by (rule conjunct1)

subsection \<open>C10: the output of a JSON function\<close>

text \<open>
  C10. For a JSON function whose parsed output has the key \<open>raw\<close>, both
  notebooks' \<open>render_output\<close> return
  \<open>{role: assistant, content: output["raw"]}\<close>: no content block is looked at,
  the result is never \<open>None\<close>, and \<open>DROP_INVALID_MESSAGES\<close> plays no
  part.
\<close>

theorem render_output_json_raw:
  assumes "function_type g = ''json''" and "map_of d ''raw'' = Some raw"
  shows "render_output_fireworks g (JsonOutput d) =
           Inr (Some \<lparr>role = ''assistant'', content = Some (Raw raw),
                      tool_calls = None, tool_call_id = None\<rparr>)
       \<and> render_output_openai g (JsonOutput d) =
           Inr (Some \<lparr>role = ''assistant'', content = Some (Raw raw),
                      tool_calls = None, tool_call_id = None\<rparr>)"
  using assms by (simp add: render_output_fireworks_def render_output_openai_def getitem_def)

theorem render_output_json_raw_witness:
  "function_type notebook_defaults = ''json''
   \<and> map_of [(''raw'', JStr ''{}''), (''parsed'', JObj [])] ''raw'' = Some (JStr ''{}'')
   \<and> render_output_fireworks notebook_defaults (JsonOutput [(''raw'', JStr ''{}''), (''parsed'', JObj [])]) =
           Inr (Some \<lparr>role = ''assistant'', content = Some (Raw (JStr ''{}'')),
                      tool_calls = None, tool_call_id = None\<rparr>)
   \<and> render_output_openai (notebook_defaults\<lparr>DROP_INVALID_MESSAGES := False\<rparr>) (JsonOutput [(''raw'', JStr ''{}''), (''parsed'', JObj [])]) =
           Inr (Some \<lparr>role = ''assistant'', content = Some (Raw (JStr ''{}'')),
                      tool_calls = None, tool_call_id = None\<rparr>)"
proof -
  have t: "function_type notebook_defaults = ''json''"
    by (simp add: notebook_defaults_def)
  have t': "function_type (notebook_defaults\<lparr>DROP_INVALID_MESSAGES := False\<rparr>) = ''json''"
    by (simp add: notebook_defaults_def)
  have r: "map_of [(''raw'', JStr ''{}''), (''parsed'', JObj [])] ''raw'' = Some (JStr ''{}'')"
    by simp
  show ?thesis
    using t r render_output_json_raw [OF t r] render_output_json_raw [OF t' r] by simp
qed

end
